theory Spec2Isabelle
  imports Complex_Main "HOL-Library.Sublist"
begin

section \<open>Completion polling and retry helpers of the end-to-end test utilities\<close>

text \<open>
  The development embeds \<^verbatim>\<open>src/__tests__/e2e/test-utils.ts\<close>: the poll loop
  \<^verbatim>\<open>pollUntil\<close>, the six \<^verbatim>\<open>waitFor...\<close> wrappers built on it, and
  \<^verbatim>\<open>retry\<close>.

  Modelling conventions.
  \<^item> Clock readings are whole milliseconds: \<^verbatim>\<open>Date.now() - startTime\<close> is a natural
    number. The options of \<^verbatim>\<open>pollUntil\<close> and \<^verbatim>\<open>maxAttempts\<close> are integers (they may
    be zero or negative). The delays and the factor of \<^verbatim>\<open>retry\<close> are rational numbers,
    so that a factor such as 1.5 is covered, and the backoff is computed exactly; the code
    computes it in double precision, which agrees as long as the values involved are
    representable (integers up to \<open>2^53\<close> among them). \<^verbatim>\<open>NaN\<close> option values are outside
    the model.
  \<^item> A thrown value is represented by its message, as the code itself only ever reads
    \<^verbatim>\<open>error.message\<close> or \<^verbatim>\<open>String(error)\<close>.
  \<^item> An asynchronous operation supplied by the caller is a script: the \<open>k\<close>-th call
    (counted from 1) takes some time and then either throws or returns. The time of a
    call also absorbs any lateness of the timer that follows it, because the clock is
    only read at the head of the loop.
  \<^item> Synchronous code takes no time.
\<close>

subsection \<open>Template literals: decimal numerals\<close>

definition digit :: "nat \<Rightarrow> char" where
  "digit d = ''0123456789'' ! (d mod 10)"

fun show_nat :: "nat \<Rightarrow> string" where
  "show_nat n = (if n < 10 then [digit n] else show_nat (n div 10) @ [digit n])"

declare show_nat.simps [simp del]

definition show_int :: "int \<Rightarrow> string" where
  "show_int i = (if i < 0 then CHR ''-'' # show_nat (nat (- i)) else show_nat (nat i))"

subsection \<open>Options and the \<^verbatim>\<open>||\<close> defaults\<close>

text \<open>An omitted option is \<open>None\<close>. \<^verbatim>\<open>x || d\<close> yields \<open>d\<close> whenever \<open>x\<close> is falsy:
  \<^verbatim>\<open>undefined\<close>, the number 0, the empty string.\<close>

definition num_or :: "'a::zero option \<Rightarrow> 'a \<Rightarrow> 'a" where
  "num_or x d = (case x of None \<Rightarrow> d | Some n \<Rightarrow> if n = 0 then d else n)"

definition str_or :: "string option \<Rightarrow> string \<Rightarrow> string" where
  "str_or x d = (case x of None \<Rightarrow> d | Some s \<Rightarrow> if s = [] then d else s)"

record poll_options =
  maxWait :: "int option"
  pollInterval :: "int option"
  timeoutMessage :: "string option"

subsection \<open>The environment of one run\<close>

text \<open>The \<open>k\<close>-th call of the polled function: the milliseconds it takes, and its
  outcome (\<open>Inl\<close> the message of what it threw, \<open>Inr\<close> the value it resolved with).\<close>

type_synonym 'r accessor = "nat \<Rightarrow> nat \<times> (string + 'r)"

text \<open>A condition returns a boolean or throws.\<close>

type_synonym 'r predicate = "'r \<Rightarrow> string + bool"

text \<open>\<^verbatim>\<open>setTimeout(resolve, d)\<close> under Node.js: a delay below 1 or above \<open>2^31 - 1\<close>
  is replaced by 1, so every sleep lets the clock advance.\<close>

definition setTimeout_ms :: "int \<Rightarrow> nat" where
  "setTimeout_ms d = (if d < 1 \<or> 2147483647 < d then 1 else nat d)"

record 'r poll_state =
  clock :: nat
  lastResult :: "'r option"
  attempts :: nat
  sleeps :: "int list"
  console :: "string list"

definition start_state :: "'r poll_state" where
  "start_state = \<lparr>clock = 0, lastResult = None, attempts = 0, sleeps = [], console = []\<rparr>"

definition sleep_st :: "int \<Rightarrow> 'r poll_state \<Rightarrow> 'r poll_state" where
  "sleep_st d st = st\<lparr>clock := clock st + setTimeout_ms d, sleeps := sleeps st @ [d]\<rparr>"

definition logFailure :: "nat \<Rightarrow> string \<Rightarrow> 'r poll_state \<Rightarrow> 'r poll_state" where
  "logFailure k e st =
     st\<lparr>console := console st @ [''[pollUntil] Attempt '' @ show_nat k @ '' failed: '' @ e]\<rparr>"

subsection \<open>\<^verbatim>\<open>pollUntil\<close>\<close>

text \<open>One pass through the body of the \<^verbatim>\<open>while\<close> loop up to the end of the
  \<^verbatim>\<open>try/catch\<close>. Both the call of \<^verbatim>\<open>fn\<close> and the call of \<^verbatim>\<open>condition\<close>
  stand inside the \<^verbatim>\<open>try\<close>, so whatever either of them throws reaches the same
  \<^verbatim>\<open>catch\<close>, which logs and falls through to the sleep.\<close>

datatype 'r step = Return 'r "'r poll_state" | Continue "'r poll_state"

definition pollAttempt :: "'r accessor \<Rightarrow> 'r predicate \<Rightarrow> 'r poll_state \<Rightarrow> 'r step" where
  "pollAttempt fn condition st =
     (let k = attempts st + 1;
          st1 = st\<lparr>clock := clock st + fst (fn k), attempts := k\<rparr>
      in case snd (fn k) of
           Inl e \<Rightarrow> Continue (logFailure k e st1)
         | Inr result \<Rightarrow>
             (let st2 = st1\<lparr>lastResult := Some result\<rparr>
              in case condition result of
                   Inl e \<Rightarrow> Continue (logFailure k e st2)
                 | Inr b \<Rightarrow> if b then Return result st2 else Continue st2))"

function pollLoop ::
  "'r accessor \<Rightarrow> 'r predicate \<Rightarrow> int \<Rightarrow> int \<Rightarrow> 'r poll_state \<Rightarrow> 'r option \<times> 'r poll_state" where
  "pollLoop fn condition mw iv st =
     (if int (clock st) < mw then
        (case pollAttempt fn condition st of
           Return result st' \<Rightarrow> (Some result, st')
         | Continue st' \<Rightarrow> pollLoop fn condition mw iv (sleep_st iv st'))
      else (None, st))"
  by pat_completeness auto
termination
proof (relation "measure (\<lambda>(fn, condition, mw, iv, st). nat (mw - int (clock st)))")
  show "wf (measure (\<lambda>(fn, condition, mw, iv, st). nat (mw - int (clock st))))"
    by simp
next
  fix fn :: "'r accessor" and condition :: "'r predicate" and mw iv :: int
    and st st' :: "'r poll_state"
  assume run: "int (clock st) < mw" and cont: "pollAttempt fn condition st = Continue st'"
  have "clock st \<le> clock st'"
    using cont
    by (auto simp: pollAttempt_def Let_def logFailure_def split: sum.splits if_splits)
  moreover have "0 < setTimeout_ms iv"
    by (simp add: setTimeout_ms_def)
  ultimately have "clock st < clock (sleep_st iv st')"
    by (simp add: sleep_st_def)
  with run show "((fn, condition, mw, iv, sleep_st iv st'), (fn, condition, mw, iv, st))
      \<in> measure (\<lambda>(fn, condition, mw, iv, st). nat (mw - int (clock st)))"
    by simp
qed

declare pollLoop.simps [simp del]

text \<open>\<^verbatim>\<open>JSON.stringify(lastResult, null, 2)\<close> inside a template literal. The
  serialiser of defined values is the runtime's and is a parameter; for
  \<^verbatim>\<open>undefined\<close> it yields \<^verbatim>\<open>undefined\<close>, which the template prints as such.\<close>

definition JSON_stringify :: "('r \<Rightarrow> string) \<Rightarrow> 'r option \<Rightarrow> string" where
  "JSON_stringify stringify v = (case v of None \<Rightarrow> ''undefined'' | Some r \<Rightarrow> stringify r)"

definition defaultTimeoutMsg :: "int \<Rightarrow> nat \<Rightarrow> string" where
  "defaultTimeoutMsg mw n =
     ''pollUntil: condition not met after '' @ show_int mw @ ''ms ('' @ show_nat n @ '' attempts)''"

definition timeoutError :: "('r \<Rightarrow> string) \<Rightarrow> poll_options \<Rightarrow> int \<Rightarrow> 'r poll_state \<Rightarrow> string" where
  "timeoutError stringify options mw st =
     (let timeoutMsg = str_or (timeoutMessage options) (defaultTimeoutMsg mw (attempts st))
      in timeoutMsg @ [CHR 0x0A] @ ''Last result: '' @ JSON_stringify stringify (lastResult st))"

text \<open>The result of a run: what the promise settles with (\<open>Inl\<close> the message of the
  thrown \<^verbatim>\<open>Error\<close>, \<open>Inr\<close> the returned value) and the final state, which records the
  number of calls of \<^verbatim>\<open>fn\<close>, the sleeps and the log.\<close>

definition pollUntil ::
  "('r \<Rightarrow> string) \<Rightarrow> 'r accessor \<Rightarrow> 'r predicate \<Rightarrow> poll_options \<Rightarrow> (string + 'r) \<times> 'r poll_state" where
  "pollUntil stringify fn condition options =
     (let mw = num_or (maxWait options) 30000;
          iv = num_or (pollInterval options) 1000
      in case pollLoop fn condition mw iv start_state of
           (Some result, st) \<Rightarrow> (Inr result, st)
         | (None, st) \<Rightarrow> (Inl (timeoutError stringify options mw st), st))"

subsection \<open>\<^verbatim>\<open>retry\<close>\<close>

record retry_options =
  maxAttempts :: "int option"
  initialDelay :: "rat option"
  maxDelay :: "rat option"
  backoffFactor :: "rat option"

text \<open>What a run of \<^verbatim>\<open>retry\<close> does besides settling: the number of calls of
  \<^verbatim>\<open>fn\<close>, the delays passed to \<^verbatim>\<open>sleep\<close> (oldest first), the variable
  \<^verbatim>\<open>lastError\<close> and the log. A logged line
  \<^verbatim>\<open>[retry] Attempt k failed, retrying in d ms...\<close> is kept as the pair \<open>(k, d)\<close>: how
  the number \<open>d\<close> is printed is the runtime's business.\<close>

record retry_state =
  calls :: nat
  slept :: "rat list"
  lastError :: "string option"
  retry_console :: "(nat \<times> rat) list"

definition retry_start :: retry_state where
  "retry_start = \<lparr>calls = 0, slept = [], lastError = None, retry_console = []\<rparr>"

text \<open>\<^verbatim>\<open>Math.min(initialDelay * Math.pow(backoffFactor, attempt - 1), maxDelay)\<close>;
  \<open>attempt\<close> is at least 1 wherever the loop evaluates it.\<close>

definition backoffDelay :: "rat \<Rightarrow> rat \<Rightarrow> rat \<Rightarrow> nat \<Rightarrow> rat" where
  "backoffDelay initD factor maxD attempt = min (initD * factor ^ (attempt - 1)) maxD"

definition logRetry :: "nat \<Rightarrow> rat \<Rightarrow> retry_state \<Rightarrow> retry_state" where
  "logRetry attempt delay st = st\<lparr>retry_console := retry_console st @ [(attempt, delay)]\<rparr>"

text \<open>The operation is a script as well: its \<open>k\<close>-th call throws (\<open>Inl\<close>) or returns
  (\<open>Inr\<close>). The loop calls it once per iteration, so the \<open>k\<close>-th call is made by the
  iteration with \<^verbatim>\<open>attempt = k\<close>.\<close>

function retryLoop ::
  "(nat \<Rightarrow> string + 'a) \<Rightarrow> int \<Rightarrow> rat \<Rightarrow> rat \<Rightarrow> rat \<Rightarrow> nat \<Rightarrow> retry_state \<Rightarrow> 'a option \<times> retry_state" where
  "retryLoop fn maxAtt initD maxD factor attempt st =
     (if int attempt \<le> maxAtt then
        (case fn attempt of
           Inr v \<Rightarrow> (Some v, st\<lparr>calls := calls st + 1\<rparr>)
         | Inl e \<Rightarrow>
             (let st1 = st\<lparr>calls := calls st + 1, lastError := Some e\<rparr>
              in if int attempt = maxAtt then (None, st1)
                 else
                   (let delay = backoffDelay initD factor maxD attempt;
                        st2 = logRetry attempt delay st1
                    in retryLoop fn maxAtt initD maxD factor (attempt + 1)
                         (st2\<lparr>slept := slept st2 @ [delay]\<rparr>))))
      else (None, st))"
  by pat_completeness auto
termination
  by (relation "measure (\<lambda>(fn, maxAtt, initD, maxD, factor, attempt, st). nat (maxAtt + 1 - int attempt))")
    auto

declare retryLoop.simps [simp del]

definition retry :: "(nat \<Rightarrow> string + 'a) \<Rightarrow> retry_options \<Rightarrow> (string + 'a) \<times> retry_state" where
  "retry fn options =
     (let maxAtt = num_or (maxAttempts options) 3;
          initD = num_or (initialDelay options) 1000;
          maxD = num_or (maxDelay options) 10000;
          factor = num_or (backoffFactor options) 2
      in case retryLoop fn maxAtt initD maxD factor 1 retry_start of
           (Some v, st) \<Rightarrow> (Inr v, st)
         | (None, st) \<Rightarrow>
             (Inl (''Failed after '' @ show_int maxAtt @ '' attempts: '' @
                   (case lastError st of None \<Rightarrow> ''undefined'' | Some m \<Rightarrow> m)), st))"

subsection \<open>Observed results of the domain wrappers\<close>

text \<open>The wrappers cast what the remote call returns to \<^verbatim>\<open>Record<string, unknown>\<close>
  without checking it, so their conditions may meet any value. Numbers are integers or
  \<^verbatim>\<open>NaN\<close>; an object is its list of own properties, the first entry of a key being
  the one that counts.\<close>

datatype jsval =
    JUndefined
  | JNull
  | JBool bool
  | JNum int
  | JNaN
  | JStr string
  | JObj "(string \<times> jsval) list"

definition truthy :: "jsval \<Rightarrow> bool" where
  "truthy v = (case v of
      JUndefined \<Rightarrow> False
    | JNull \<Rightarrow> False
    | JBool b \<Rightarrow> b
    | JNum n \<Rightarrow> n \<noteq> 0
    | JNaN \<Rightarrow> False
    | JStr s \<Rightarrow> s \<noteq> []
    | JObj kvs \<Rightarrow> True)"

definition js_or :: "jsval \<Rightarrow> jsval \<Rightarrow> jsval" where
  "js_or a b = (if truthy a then a else b)"

text \<open>Reading a property: a \<^verbatim>\<open>TypeError\<close> on \<^verbatim>\<open>undefined\<close> and \<^verbatim>\<open>null\<close>
  (with the message Node.js gives it, the key between single quotes),
  \<^verbatim>\<open>undefined\<close> for a key the object does not have. None of the keys the wrappers
  read exists on the prototype of a primitive value.\<close>

definition own_property :: "(string \<times> jsval) list \<Rightarrow> string \<Rightarrow> jsval" where
  "own_property kvs key = (case map_of kvs key of None \<Rightarrow> JUndefined | Some x \<Rightarrow> x)"

definition js_get :: "jsval \<Rightarrow> string \<Rightarrow> string + jsval" where
  "js_get v key = (case v of
      JUndefined \<Rightarrow>
        Inl (''Cannot read properties of undefined (reading '' @ [CHR 0x27] @ key @ [CHR 0x27] @ '')'')
    | JNull \<Rightarrow>
        Inl (''Cannot read properties of null (reading '' @ [CHR 0x27] @ key @ [CHR 0x27] @ '')'')
    | JObj kvs \<Rightarrow> Inr (own_property kvs key)
    | _ \<Rightarrow> Inr JUndefined)"

text \<open>\<^verbatim>\<open>Number(v)\<close>, with \<open>None\<close> for \<^verbatim>\<open>NaN\<close>. The conversion of strings and objects
  is the runtime's and is a parameter.\<close>

definition Number_js :: "(jsval \<Rightarrow> int option) \<Rightarrow> jsval \<Rightarrow> int option" where
  "Number_js conv v = (case v of
      JUndefined \<Rightarrow> None
    | JNull \<Rightarrow> Some 0
    | JBool b \<Rightarrow> Some (if b then 1 else 0)
    | JNum n \<Rightarrow> Some n
    | JNaN \<Rightarrow> None
    | _ \<Rightarrow> conv v)"

text \<open>\<^verbatim>\<open>a >= b\<close> for a possibly-\<^verbatim>\<open>NaN\<close> left operand.\<close>

definition num_ge :: "int option \<Rightarrow> int \<Rightarrow> bool" where
  "num_ge a b = (case a of None \<Rightarrow> False | Some n \<Rightarrow> b \<le> n)"

subsection \<open>The six wrappers\<close>

definition bankAccountCondition :: "jsval predicate" where
  "bankAccountCondition account =
     (case js_get account ''verificationState'' of
        Inl e \<Rightarrow> Inl e
      | Inr vs \<Rightarrow>
          (case (if truthy vs then Inr vs else js_get account ''status'') of
             Inl e \<Rightarrow> Inl e
           | Inr state \<Rightarrow> Inr (state = JStr ''verified'' \<or> state = JStr ''approved'')))"

text \<open>The client is represented by its method \<^verbatim>\<open>getBankAccount\<close>, a script for each
  account id. The function is declared \<^verbatim>\<open>Promise<void>\<close> and awaits the poll without
  returning its value: it resolves with \<^verbatim>\<open>undefined\<close>.\<close>

definition waitForBankAccountVerification ::
  "(jsval \<Rightarrow> string) \<Rightarrow> (string \<Rightarrow> jsval accessor) \<Rightarrow> string \<Rightarrow> int option
     \<Rightarrow> (string + jsval) \<times> jsval poll_state" where
  "waitForBankAccountVerification stringify getBankAccount bankAccountId maxWaitArg =
     (let mw = (case maxWaitArg of None \<Rightarrow> 120000 | Some m \<Rightarrow> m);
          run = pollUntil stringify (getBankAccount bankAccountId) bankAccountCondition
                  \<lparr>maxWait = Some mw, pollInterval = Some 5000,
                   timeoutMessage = Some (''Bank account '' @ bankAccountId @
                     '' not verified after '' @ show_int mw @ ''ms'')\<rparr>
      in case fst run of
           Inl e \<Rightarrow> (Inl e, snd run)
         | Inr account \<Rightarrow> (Inr JUndefined, snd run))"

definition achDebitCondition :: "jsval predicate" where
  "achDebitCondition result =
     (case js_get result ''status'' of
        Inl e \<Rightarrow> Inl e
      | Inr status \<Rightarrow>
          Inr (status = JStr ''completed'' \<or> status = JStr ''settled'' \<or> status = JStr ''done''))"

definition waitForAchDebitCompletion ::
  "(jsval \<Rightarrow> string) \<Rightarrow> jsval accessor \<Rightarrow> int option \<Rightarrow> (string + jsval) \<times> jsval poll_state" where
  "waitForAchDebitCompletion stringify getStatusFn maxWaitArg =
     (let mw = (case maxWaitArg of None \<Rightarrow> 300000 | Some m \<Rightarrow> m)
      in pollUntil stringify getStatusFn achDebitCondition
           \<lparr>maxWait = Some mw, pollInterval = Some 10000,
            timeoutMessage = Some ''ACH debit not completed in time''\<rparr>)"

definition orderFillCondition :: "jsval predicate" where
  "orderFillCondition order =
     (case js_get order ''status'' of
        Inl e \<Rightarrow> Inl e
      | Inr status \<Rightarrow>
          Inr (status = JStr ''filled'' \<or> status = JStr ''done'' \<or> status = JStr ''settled''))"

definition waitForOrderFill ::
  "(jsval \<Rightarrow> string) \<Rightarrow> jsval accessor \<Rightarrow> int option \<Rightarrow> (string + jsval) \<times> jsval poll_state" where
  "waitForOrderFill stringify getOrderFn maxWaitArg =
     (let mw = (case maxWaitArg of None \<Rightarrow> 60000 | Some m \<Rightarrow> m)
      in pollUntil stringify getOrderFn orderFillCondition
           \<lparr>maxWait = Some mw, pollInterval = Some 2000,
            timeoutMessage = Some ''Order not filled in time''\<rparr>)"

definition transactionCondition :: "(jsval \<Rightarrow> int option) \<Rightarrow> int \<Rightarrow> jsval predicate" where
  "transactionCondition conv minConfirmations transfer =
     (case js_get transfer ''status'' of
        Inl e \<Rightarrow> Inl e
      | Inr status \<Rightarrow>
          (case js_get transfer ''confirmations'' of
             Inl e \<Rightarrow> Inl e
           | Inr c \<Rightarrow>
               (let confirmations = Number_js conv (js_or c (JNum 0))
                in Inr (status = JStr ''confirmed'' \<or> status = JStr ''complete'' \<or>
                        num_ge confirmations minConfirmations))))"

definition waitForTransactionConfirmation ::
  "(jsval \<Rightarrow> string) \<Rightarrow> (jsval \<Rightarrow> int option) \<Rightarrow> jsval accessor \<Rightarrow> int option \<Rightarrow> int option
     \<Rightarrow> (string + jsval) \<times> jsval poll_state" where
  "waitForTransactionConfirmation stringify conv getTransferFn minConfirmationsArg maxWaitArg =
     (let minConfirmations = (case minConfirmationsArg of None \<Rightarrow> 1 | Some m \<Rightarrow> m);
          mw = (case maxWaitArg of None \<Rightarrow> 600000 | Some m \<Rightarrow> m)
      in pollUntil stringify getTransferFn (transactionCondition conv minConfirmations)
           \<lparr>maxWait = Some mw, pollInterval = Some 15000,
            timeoutMessage = Some (''Transaction not confirmed after '' @ show_int mw @ ''ms'')\<rparr>)"

definition lightningInvoiceCondition :: "jsval predicate" where
  "lightningInvoiceCondition invoice =
     (case js_get invoice ''status'' of
        Inl e \<Rightarrow> Inl e
      | Inr status \<Rightarrow>
          Inr (status = JStr ''paid'' \<or> status = JStr ''settled'' \<or> status = JStr ''completed''))"

definition waitForLightningInvoicePaid ::
  "(jsval \<Rightarrow> string) \<Rightarrow> jsval accessor \<Rightarrow> int option \<Rightarrow> (string + jsval) \<times> jsval poll_state" where
  "waitForLightningInvoicePaid stringify getInvoiceFn maxWaitArg =
     (let mw = (case maxWaitArg of None \<Rightarrow> 120000 | Some m \<Rightarrow> m)
      in pollUntil stringify getInvoiceFn lightningInvoiceCondition
           \<lparr>maxWait = Some mw, pollInterval = Some 3000,
            timeoutMessage = Some ''Lightning invoice not paid in time''\<rparr>)"

definition kycCondition :: "jsval predicate" where
  "kycCondition identity =
     (case js_get identity ''status'' of
        Inl e \<Rightarrow> Inl e
      | Inr s \<Rightarrow>
          (case (if truthy s then Inr s else js_get identity ''verificationStatus'') of
             Inl e \<Rightarrow> Inl e
           | Inr status \<Rightarrow>
               Inr (status = JStr ''approved'' \<or> status = JStr ''verified'' \<or>
                    status = JStr ''complete'')))"

definition waitForKycApproval ::
  "(jsval \<Rightarrow> string) \<Rightarrow> jsval accessor \<Rightarrow> int option \<Rightarrow> (string + jsval) \<times> jsval poll_state" where
  "waitForKycApproval stringify getIdentityFn maxWaitArg =
     (let mw = (case maxWaitArg of None \<Rightarrow> 300000 | Some m \<Rightarrow> m)
      in pollUntil stringify getIdentityFn kycCondition
           \<lparr>maxWait = Some mw, pollInterval = Some 10000,
            timeoutMessage = Some ''KYC identity not approved in time''\<rparr>)"

subsection \<open>Vocabulary for statements about runs\<close>

text \<open>Attempt \<open>k\<close> does not end the poll: the polled function throws, or the condition
  throws on its result or returns false.\<close>

definition unsuccessful :: "'r accessor \<Rightarrow> 'r predicate \<Rightarrow> nat \<Rightarrow> bool" where
  "unsuccessful fn condition k =
     (case snd (fn k) of Inl e \<Rightarrow> True | Inr r \<Rightarrow> condition r \<noteq> Inr True)"

text \<open>The clock reading at the head of the loop after \<open>n\<close> further unsuccessful
  attempts have followed attempt \<open>a\<close>, relative to the reading before them: the time of
  each call plus the sleep \<open>d\<close> after it.\<close>

fun elapsedAfter :: "'r accessor \<Rightarrow> nat \<Rightarrow> nat \<Rightarrow> nat \<Rightarrow> nat" where
  "elapsedAfter fn d a 0 = 0"
| "elapsedAfter fn d a (Suc n) = fst (fn (Suc a)) + d + elapsedAfter fn d (Suc a) n"

text \<open>The value last returned by the polled function among its first \<open>n\<close> calls.\<close>

fun lastObserved :: "'r accessor \<Rightarrow> nat \<Rightarrow> 'r option" where
  "lastObserved fn 0 = None"
| "lastObserved fn (Suc n) =
     (case snd (fn (Suc n)) of Inl e \<Rightarrow> lastObserved fn n | Inr r \<Rightarrow> Some r)"

text \<open>The deadline a wrapper polls with: its \<^verbatim>\<open>maxWait\<close> parameter, \<open>d\<close> when the
  argument is omitted, handed to \<^verbatim>\<open>pollUntil\<close> as the option \<^verbatim>\<open>maxWait\<close>.\<close>

definition wrapperDeadline :: "int \<Rightarrow> int option \<Rightarrow> int" where
  "wrapperDeadline d maxWaitArg =
     num_or (Some (case maxWaitArg of None \<Rightarrow> d | Some m \<Rightarrow> m)) 30000"

text \<open>Attempt \<open>n + 1\<close> is the first whose result satisfies the condition, and it starts
  before the deadline \<open>mw\<close> when every sleep is requested with \<open>iv\<close>.\<close>

definition firstSatisfiedAt ::
  "'r accessor \<Rightarrow> 'r predicate \<Rightarrow> int \<Rightarrow> int \<Rightarrow> nat \<Rightarrow> 'r \<Rightarrow> bool" where
  "firstSatisfiedAt fn condition iv mw n r =
     ((\<forall>i. 1 \<le> i \<and> i \<le> n \<longrightarrow> unsuccessful fn condition i)
      \<and> snd (fn (Suc n)) = Inr r \<and> condition r = Inr True
      \<and> int (elapsedAfter fn (setTimeout_ms iv) 0 n) < mw)"

section \<open>Properties\<close>

subsection \<open>Facts about one attempt\<close>

lemma pollAttempt_unsuccessful:
  assumes "unsuccessful fn c (Suc (attempts st))"
  shows "\<exists>st'. pollAttempt fn c st = Continue st' \<and> attempts st' = Suc (attempts st)
     \<and> clock st' = clock st + fst (fn (Suc (attempts st))) \<and> sleeps st' = sleeps st"
  using assms
  by (auto simp: unsuccessful_def pollAttempt_def Let_def logFailure_def split: sum.splits)

lemma pollAttempt_success:
  assumes "snd (fn (Suc (attempts st))) = Inr r" and "c r = Inr True"
  shows "pollAttempt fn c st =
     Return r (st\<lparr>clock := clock st + fst (fn (Suc (attempts st))), attempts := Suc (attempts st),
                 lastResult := Some r\<rparr>)"
  using assms by (simp add: pollAttempt_def Let_def)

lemma pollAttempt_Return:
  assumes "pollAttempt fn c st = Return r st'"
  shows "snd (fn (Suc (attempts st))) = Inr r \<and> c r = Inr True \<and> attempts st' = Suc (attempts st)
     \<and> lastResult st' = Some r \<and> sleeps st' = sleeps st"
  using assms
  by (auto simp: pollAttempt_def Let_def logFailure_def split: sum.splits if_splits)

lemma pollAttempt_Continue:
  assumes "pollAttempt fn c st = Continue st'"
  shows "unsuccessful fn c (Suc (attempts st)) \<and> attempts st' = Suc (attempts st)
     \<and> sleeps st' = sleeps st
     \<and> lastResult st' = (case snd (fn (Suc (attempts st))) of Inl e \<Rightarrow> lastResult st | Inr r \<Rightarrow> Some r)"
  using assms
  by (auto simp: pollAttempt_def Let_def logFailure_def unsuccessful_def split: sum.splits if_splits)

subsection \<open>Facts about the loop\<close>

lemma pollLoop_reaches:
  assumes "\<forall>i. attempts st < i \<and> i \<le> attempts st + n \<longrightarrow> unsuccessful fn c i"
    and "snd (fn (Suc (attempts st + n))) = Inr r" and "c r = Inr True"
    and "int (clock st + elapsedAfter fn (setTimeout_ms iv) (attempts st) n) < mw"
  shows "\<exists>st'. pollLoop fn c mw iv st = (Some r, st') \<and> attempts st' = Suc (attempts st + n)
     \<and> sleeps st' = sleeps st @ replicate n iv \<and> lastResult st' = Some r
     \<and> clock st' = clock st + elapsedAfter fn (setTimeout_ms iv) (attempts st) n
          + fst (fn (Suc (attempts st + n)))"
  using assms
proof (induction n arbitrary: st)
  case 0
  then show ?case
    by (subst pollLoop.simps) (simp add: pollAttempt_success)
next
  case (Suc n)
  have u: "unsuccessful fn c (Suc (attempts st))"
    using Suc.prems(1) by simp
  from pollAttempt_unsuccessful [OF u] obtain st1 where
    st1: "pollAttempt fn c st = Continue st1" "attempts st1 = Suc (attempts st)"
      "clock st1 = clock st + fst (fn (Suc (attempts st)))" "sleeps st1 = sleeps st"
    by blast
  let ?st2 = "sleep_st iv st1"
  have a2: "attempts ?st2 = Suc (attempts st)"
    and c2: "clock ?st2 = clock st + fst (fn (Suc (attempts st))) + setTimeout_ms iv"
    and s2: "sleeps ?st2 = sleeps st @ [iv]"
    using st1 by (simp_all add: sleep_st_def)
  have run: "int (clock st) < mw"
    using Suc.prems(4) by simp
  have p1: "\<forall>i. attempts ?st2 < i \<and> i \<le> attempts ?st2 + n \<longrightarrow> unsuccessful fn c i"
    using Suc.prems(1) a2 by simp
  have p2: "snd (fn (Suc (attempts ?st2 + n))) = Inr r"
    using Suc.prems(2) a2 by simp
  have p4: "int (clock ?st2 + elapsedAfter fn (setTimeout_ms iv) (attempts ?st2) n) < mw"
    using Suc.prems(4) a2 c2 by (simp add: add.assoc)
  from Suc.IH [OF p1 p2 Suc.prems(3) p4] obtain st' where
    "pollLoop fn c mw iv ?st2 = (Some r, st')" "attempts st' = Suc (attempts ?st2 + n)"
    "sleeps st' = sleeps ?st2 @ replicate n iv" "lastResult st' = Some r"
    "clock st' = clock ?st2 + elapsedAfter fn (setTimeout_ms iv) (attempts ?st2) n
          + fst (fn (Suc (attempts ?st2 + n)))"
    by blast
  then show ?case
    using run st1(1) a2 s2 c2
    by (subst pollLoop.simps) (simp add: replicate_app_Cons_same)
qed

lemma pollLoop_None:
  "pollLoop fn c mw iv st = (None, st') \<Longrightarrow> mw \<le> int (clock st')"
proof (induction fn c mw iv st rule: pollLoop.induct)
  case (1 fn c mw iv st)
  show ?case
  proof (cases "int (clock st) < mw")
    case True
    show ?thesis
    proof (cases "pollAttempt fn c st")
      case (Return r st1)
      with True "1.prems" show ?thesis
        by (subst (asm) pollLoop.simps) simp
    next
      case (Continue st1)
      with True "1.prems" have "pollLoop fn c mw iv (sleep_st iv st1) = (None, st')"
        by (subst (asm) pollLoop.simps) simp
      with "1.IH" [OF True Continue] show ?thesis .
    qed
  next
    case False
    with "1.prems" show ?thesis
      by (subst (asm) pollLoop.simps) simp
  qed
qed

lemma pollLoop_Some:
  "pollLoop fn c mw iv st = (Some r, st') \<Longrightarrow>
     c r = Inr True \<and> snd (fn (attempts st')) = Inr r \<and> lastResult st' = Some r"
proof (induction fn c mw iv st rule: pollLoop.induct)
  case (1 fn c mw iv st)
  show ?case
  proof (cases "int (clock st) < mw")
    case True
    show ?thesis
    proof (cases "pollAttempt fn c st")
      case (Return r1 st1)
      with True "1.prems" have "r1 = r" "st1 = st'"
        by (subst (asm) pollLoop.simps, simp)+
      with Return pollAttempt_Return [of fn c st r st'] show ?thesis
        by simp
    next
      case (Continue st1)
      with True "1.prems" have "pollLoop fn c mw iv (sleep_st iv st1) = (Some r, st')"
        by (subst (asm) pollLoop.simps) simp
      with "1.IH" [OF True Continue] show ?thesis .
    qed
  next
    case False
    with "1.prems" show ?thesis
      by (subst (asm) pollLoop.simps) simp
  qed
qed

text \<open>An invariant of the loop carries over to the state it ends in, provided one
  unsuccessful attempt followed by the sleep preserves it.\<close>

lemma pollLoop_invariant:
  assumes run: "pollLoop fn c mw iv st = (x, st')"
    and init: "I st"
    and ret: "\<And>s r s'. I s \<Longrightarrow> int (clock s) < mw \<Longrightarrow> pollAttempt fn c s = Return r s' \<Longrightarrow> I s'"
    and cont: "\<And>s s'. I s \<Longrightarrow> int (clock s) < mw \<Longrightarrow> pollAttempt fn c s = Continue s'
        \<Longrightarrow> I (sleep_st iv s')"
  shows "I st'"
  using run init ret cont
proof (induction fn c mw iv st rule: pollLoop.induct)
  case (1 fn c mw iv st)
  note ret = "1.prems"(3) and cont = "1.prems"(4)
  show ?case
  proof (cases "int (clock st) < mw")
    case True
    show ?thesis
    proof (cases "pollAttempt fn c st")
      case (Return r1 st1)
      with True "1.prems"(1) have "st1 = st'"
        by (subst (asm) pollLoop.simps) simp
      with ret [OF "1.prems"(2) True] Return show ?thesis
        by simp
    next
      case (Continue st1)
      with True "1.prems"(1) have "pollLoop fn c mw iv (sleep_st iv st1) = (x, st')"
        by (subst (asm) pollLoop.simps) simp
      from "1.IH" [OF True Continue this cont [OF "1.prems"(2) True Continue] ret cont]
      show ?thesis .
    qed
  next
    case False
    with "1.prems"(1,2) show ?thesis
      by (subst (asm) pollLoop.simps) simp
  qed
qed

subsection \<open>From the loop to \<^verbatim>\<open>pollUntil\<close>\<close>

lemma pollUntil_returns:
  assumes "pollLoop fn c (num_or (maxWait options) 30000) (num_or (pollInterval options) 1000)
      start_state = (Some r, st')"
  shows "pollUntil stringify fn c options = (Inr r, st')"
  using assms by (simp add: pollUntil_def Let_def)

lemma pollUntil_throws:
  assumes "pollLoop fn c (num_or (maxWait options) 30000) (num_or (pollInterval options) 1000)
      start_state = (None, st')"
  shows "pollUntil stringify fn c options =
     (Inl (timeoutError stringify options (num_or (maxWait options) 30000) st'), st')"
  using assms by (simp add: pollUntil_def Let_def)

lemma pollUntil_reaches:
  assumes "\<forall>i. 1 \<le> i \<and> i \<le> n \<longrightarrow> unsuccessful fn c i"
    and "snd (fn (Suc n)) = Inr r" and "c r = Inr True"
    and "int (elapsedAfter fn (setTimeout_ms (num_or (pollInterval options) 1000)) 0 n)
           < num_or (maxWait options) 30000"
  shows "fst (pollUntil stringify fn c options) = Inr r
     \<and> attempts (snd (pollUntil stringify fn c options)) = Suc n
     \<and> sleeps (snd (pollUntil stringify fn c options)) = replicate n (num_or (pollInterval options) 1000)"
proof -
  let ?iv = "num_or (pollInterval options) 1000" and ?mw = "num_or (maxWait options) 30000"
  have a: "\<forall>i. attempts (start_state :: 'a poll_state) < i
      \<and> i \<le> attempts (start_state :: 'a poll_state) + n \<longrightarrow> unsuccessful fn c i"
    using assms(1) by (simp add: start_state_def Suc_le_eq)
  have b: "snd (fn (Suc (attempts (start_state :: 'a poll_state) + n))) = Inr r"
    using assms(2) by (simp add: start_state_def)
  have d: "int (clock (start_state :: 'a poll_state)
      + elapsedAfter fn (setTimeout_ms ?iv) (attempts (start_state :: 'a poll_state)) n) < ?mw"
    using assms(4) by (simp add: start_state_def)
  from pollLoop_reaches [OF a b assms(3) d] obtain st' where
    run: "pollLoop fn c ?mw ?iv start_state = (Some r, st')"
    and "attempts st' = Suc n" "sleeps st' = replicate n ?iv"
    by (auto simp: start_state_def)
  with pollUntil_returns [OF run, of stringify] show ?thesis
    by simp
qed

subsection \<open>The success exit\<close>

text \<open>
  Claim C4. If the polled function throws on each of its first \<open>N\<close> calls and its call
  \<open>N + 1\<close> returns a result on which the condition is true, and the clock reading at the
  head of the loop before that call (the time of the \<open>N\<close> failed calls and of the
  \<open>N\<close> sleeps) is still below the effective \<^verbatim>\<open>maxWait\<close>, then \<^verbatim>\<open>pollUntil\<close>
  returns that result: none of the failures aborts the loop or reaches the caller. It has
  then called the function \<open>N + 1\<close> times and slept \<open>N\<close> times, each time for the
  effective \<^verbatim>\<open>pollInterval\<close>.
\<close>

theorem pollUntil_accessor_failure_tolerance:
  assumes "\<forall>i. 1 \<le> i \<and> i \<le> N \<longrightarrow> (\<exists>e. snd (fn i) = Inl e)"
    and "snd (fn (Suc N)) = Inr r"
    and "condition r = Inr True"
    and "int (elapsedAfter fn (setTimeout_ms (num_or (pollInterval options) 1000)) 0 N)
           < num_or (maxWait options) 30000"
  shows "fst (pollUntil stringify fn condition options) = Inr r
     \<and> attempts (snd (pollUntil stringify fn condition options)) = Suc N
     \<and> sleeps (snd (pollUntil stringify fn condition options))
         = replicate N (num_or (pollInterval options) 1000)"
proof -
  have "\<forall>i. 1 \<le> i \<and> i \<le> N \<longrightarrow> unsuccessful fn condition i"
    using assms(1) by (auto simp: unsuccessful_def)
  from pollUntil_reaches [OF this assms(2,3,4)] show ?thesis .
qed

theorem pollUntil_accessor_failure_tolerance_witness:
  "int (elapsedAfter (\<lambda>k. (100, if k \<le> 2 then Inl ''not found yet'' else Inr (JStr ''paid'')))
        (setTimeout_ms (num_or (pollInterval \<lparr>maxWait = Some 5000, pollInterval = None, timeoutMessage = None\<rparr>) 1000)) 0 2)
      < num_or (maxWait \<lparr>maxWait = Some 5000, pollInterval = None, timeoutMessage = None\<rparr>) 30000
   \<and> fst (pollUntil (\<lambda>v. ''?'')
        (\<lambda>k. (100, if k \<le> 2 then Inl ''not found yet'' else Inr (JStr ''paid'')))
        (\<lambda>v. Inr (v = JStr ''paid''))
        \<lparr>maxWait = Some 5000, pollInterval = None, timeoutMessage = None\<rparr>) = Inr (JStr ''paid'')
   \<and> attempts (snd (pollUntil (\<lambda>v. ''?'')
        (\<lambda>k. (100, if k \<le> 2 then Inl ''not found yet'' else Inr (JStr ''paid'')))
        (\<lambda>v. Inr (v = JStr ''paid''))
        \<lparr>maxWait = Some 5000, pollInterval = None, timeoutMessage = None\<rparr>)) = 3"
proof -
  let ?fn = "\<lambda>k::nat. (100::nat, if k \<le> 2 then Inl ''not found yet'' else Inr (JStr ''paid''))"
  let ?opts = "\<lparr>maxWait = Some 5000, pollInterval = None, timeoutMessage = None\<rparr>"
  have h1: "\<forall>i. 1 \<le> i \<and> i \<le> (2::nat) \<longrightarrow> (\<exists>e. snd (?fn i) = Inl e)"
    by simp
  have h2: "snd (?fn (Suc 2)) = Inr (JStr ''paid'')"
    by simp
  have h3: "(\<lambda>v. Inr (v = JStr ''paid'')) (JStr ''paid'') = (Inr True :: string + bool)"
    by simp
  have h4: "int (elapsedAfter ?fn (setTimeout_ms (num_or (pollInterval ?opts) 1000)) 0 2)
      < num_or (maxWait ?opts) 30000"
    by (simp add: num_or_def setTimeout_ms_def numeral_2_eq_2)
  from pollUntil_accessor_failure_tolerance [where N = 2 and fn = ?fn and r = "JStr ''paid''"
      and condition = "\<lambda>v. Inr (v = JStr ''paid'')" and options = ?opts
      and stringify = "\<lambda>v. ''?''", OF h1 h2 h3 h4] h4
  show ?thesis
    by simp
qed

text \<open>
  Claim C5. If the first call of the polled function returns a result on which the
  condition is true (and the effective \<^verbatim>\<open>maxWait\<close> is positive, so that a first call
  is made), \<^verbatim>\<open>pollUntil\<close> returns that result after exactly one call and without any
  sleep.
\<close>

theorem pollUntil_first_result_accepted:
  assumes "snd (fn 1) = Inr r"
    and "condition r = Inr True"
    and "0 < num_or (maxWait options) 30000"
  shows "fst (pollUntil stringify fn condition options) = Inr r
     \<and> attempts (snd (pollUntil stringify fn condition options)) = 1
     \<and> sleeps (snd (pollUntil stringify fn condition options)) = []"
proof -
  have a: "\<forall>i. 1 \<le> i \<and> i \<le> (0::nat) \<longrightarrow> unsuccessful fn condition i"
    by simp
  have b: "snd (fn (Suc 0)) = Inr r"
    using assms(1) by simp
  have d: "int (elapsedAfter fn (setTimeout_ms (num_or (pollInterval options) 1000)) 0 0)
      < num_or (maxWait options) 30000"
    using assms(3) by simp
  from pollUntil_reaches [OF a b assms(2) d, of stringify] show ?thesis
    by simp
qed

theorem pollUntil_first_result_accepted_witness:
  "0 < num_or (maxWait \<lparr>maxWait = None, pollInterval = None, timeoutMessage = None\<rparr>) 30000
   \<and> fst (pollUntil (\<lambda>v. ''?'') (\<lambda>k. (250, Inr (JStr ''filled''))) (\<lambda>v. Inr (v = JStr ''filled''))
        \<lparr>maxWait = None, pollInterval = None, timeoutMessage = None\<rparr>) = Inr (JStr ''filled'')
   \<and> attempts (snd (pollUntil (\<lambda>v. ''?'') (\<lambda>k. (250, Inr (JStr ''filled''))) (\<lambda>v. Inr (v = JStr ''filled''))
        \<lparr>maxWait = None, pollInterval = None, timeoutMessage = None\<rparr>)) = 1
   \<and> sleeps (snd (pollUntil (\<lambda>v. ''?'') (\<lambda>k. (250, Inr (JStr ''filled''))) (\<lambda>v. Inr (v = JStr ''filled''))
        \<lparr>maxWait = None, pollInterval = None, timeoutMessage = None\<rparr>)) = []"
proof -
  have h: "0 < num_or (maxWait \<lparr>maxWait = None, pollInterval = None, timeoutMessage = None\<rparr>) 30000"
    by (simp add: num_or_def)
  from pollUntil_first_result_accepted [of "\<lambda>k. (250, Inr (JStr ''filled''))" "JStr ''filled''"
      "\<lambda>v. Inr (v = JStr ''filled'')" "\<lparr>maxWait = None, pollInterval = None, timeoutMessage = None\<rparr>"
      "\<lambda>v. ''?''"] h
  show ?thesis
    by simp
qed

subsection \<open>The error of a poll that runs out of time\<close>

lemma pollLoop_lastObserved:
  assumes "pollLoop fn c mw iv st = (x, st')"
    and "lastResult st = lastObserved fn (attempts st)"
  shows "lastResult st' = lastObserved fn (attempts st')"
proof (rule pollLoop_invariant [OF assms(1), where I = "\<lambda>s. lastResult s = lastObserved fn (attempts s)"])
  show "lastResult st = lastObserved fn (attempts st)"
    by (rule assms(2))
next
  fix s r s'
  assume "lastResult s = lastObserved fn (attempts s)" and "pollAttempt fn c s = Return r s'"
  then show "lastResult s' = lastObserved fn (attempts s')"
    using pollAttempt_Return [of fn c s r s'] by simp
next
  fix s s'
  assume "lastResult s = lastObserved fn (attempts s)" and "pollAttempt fn c s = Continue s'"
  then show "lastResult (sleep_st iv s') = lastObserved fn (attempts (sleep_st iv s'))"
    using pollAttempt_Continue [of fn c s s'] by (simp add: sleep_st_def split: sum.splits)
qed

lemma pollUntil_cases:
  obtains (returns) r st' where
      "pollLoop fn c (num_or (maxWait options) 30000) (num_or (pollInterval options) 1000)
         start_state = (Some r, st')"
      "pollUntil stringify fn c options = (Inr r, st')"
  | (throws) st' where
      "pollLoop fn c (num_or (maxWait options) 30000) (num_or (pollInterval options) 1000)
         start_state = (None, st')"
      "pollUntil stringify fn c options =
         (Inl (timeoutError stringify options (num_or (maxWait options) 30000) st'), st')"
proof (cases "pollLoop fn c (num_or (maxWait options) 30000) (num_or (pollInterval options) 1000)
    (start_state :: 'a poll_state)")
  case (Pair x st')
  show ?thesis
  proof (cases x)
    case None
    with Pair have a: "pollLoop fn c (num_or (maxWait options) 30000)
        (num_or (pollInterval options) 1000) start_state = (None, st')"
      by simp
    from throws [OF a pollUntil_throws [OF a]] show ?thesis .
  next
    case (Some r)
    with Pair have a: "pollLoop fn c (num_or (maxWait options) 30000)
        (num_or (pollInterval options) 1000) start_state = (Some r, st')"
      by simp
    from returns [OF a pollUntil_returns [OF a]] show ?thesis .
  qed
qed

text \<open>
  Claim C3, as amended. When \<^verbatim>\<open>pollUntil\<close> fails, the message of its error is the
  effective timeout message, a line break, the words \<^verbatim>\<open>Last result:\<close> and the
  serialisation of the value the polled function last returned, or the word
  \<^verbatim>\<open>undefined\<close> when none of its calls returned. The effective timeout message is the
  caller's when one is given and is not empty; otherwise it is the default, and only the
  default names the effective \<^verbatim>\<open>maxWait\<close> and the number of attempts.
\<close>

theorem pollUntil_timeout_message:
  assumes "fst (pollUntil stringify fn condition options) = Inl msg"
  shows "msg =
      str_or (timeoutMessage options)
        (''pollUntil: condition not met after '' @ show_int (num_or (maxWait options) 30000)
          @ ''ms ('' @ show_nat (attempts (snd (pollUntil stringify fn condition options)))
          @ '' attempts)'')
      @ [CHR 0x0A] @ ''Last result: ''
      @ (case lastObserved fn (attempts (snd (pollUntil stringify fn condition options))) of
           None \<Rightarrow> ''undefined''
         | Some r \<Rightarrow> stringify r)"
proof (cases rule: pollUntil_cases [of fn condition options stringify])
  case (returns r st')
  with assms show ?thesis by simp
next
  case (throws st')
  have "lastResult st' = lastObserved fn (attempts st')"
    using pollLoop_lastObserved [OF throws(1)] by (simp add: start_state_def)
  then have "timeoutError stringify options (num_or (maxWait options) 30000) st' =
      str_or (timeoutMessage options)
        (''pollUntil: condition not met after '' @ show_int (num_or (maxWait options) 30000)
          @ ''ms ('' @ show_nat (attempts st') @ '' attempts)'')
      @ [CHR 0x0A] @ ''Last result: ''
      @ (case lastObserved fn (attempts st') of None \<Rightarrow> ''undefined'' | Some r \<Rightarrow> stringify r)"
    by (simp only: timeoutError_def defaultTimeoutMsg_def JSON_stringify_def Let_def)
  moreover have "msg = timeoutError stringify options (num_or (maxWait options) 30000) st'"
    using throws(2) assms by simp
  moreover have "snd (pollUntil stringify fn condition options) = st'"
    using throws(2) by simp
  ultimately show ?thesis
    by (simp only:)
qed

theorem pollUntil_timeout_message_witness:
  "fst (pollUntil (\<lambda>v::jsval. ''{}'') (\<lambda>k. (0, Inr (JObj [(''status'', JStr ''pending'')])))
        (\<lambda>v. Inr False)
        \<lparr>maxWait = Some 1500, pollInterval = None, timeoutMessage = None\<rparr>)
     = Inl (''pollUntil: condition not met after 1500ms (2 attempts)'' @ [CHR 0x0A]
            @ ''Last result: {}'')"
proof -
  let ?run = "pollUntil (\<lambda>v::jsval. ''{}'') (\<lambda>k. (0, Inr (JObj [(''status'', JStr ''pending'')])))
        (\<lambda>v. Inr False) \<lparr>maxWait = Some 1500, pollInterval = None, timeoutMessage = None\<rparr>"
  have run: "fst ?run = Inl (timeoutError (\<lambda>v::jsval. ''{}'')
        \<lparr>maxWait = Some 1500, pollInterval = None, timeoutMessage = None\<rparr> 1500 (snd ?run))"
    and n: "attempts (snd ?run) = 2"
    by (simp_all add: pollUntil_def pollLoop.simps pollAttempt_def Let_def num_or_def
        start_state_def sleep_st_def setTimeout_ms_def)
  from pollUntil_timeout_message [OF run] n show ?thesis
    by (simp add: run str_or_def num_or_def show_int_def show_nat.simps digit_def
        numeral_2_eq_2)
qed

theorem pollUntil_timeout_message_counterexample:
  "fst (pollUntil (\<lambda>v::jsval. ''{}'') (\<lambda>k. (20, Inl ''404 not found''))
        (\<lambda>v. Inr False)
        \<lparr>maxWait = Some 500, pollInterval = Some 1000,
         timeoutMessage = Some ''Order not filled in time''\<rparr>)
     = Inl (''Order not filled in time'' @ [CHR 0x0A] @ ''Last result: undefined'')
   \<and> attempts (snd (pollUntil (\<lambda>v::jsval. ''{}'') (\<lambda>k. (20, Inl ''404 not found''))
        (\<lambda>v. Inr False)
        \<lparr>maxWait = Some 500, pollInterval = Some 1000,
         timeoutMessage = Some ''Order not filled in time''\<rparr>)) = 1
   \<and> \<not> sublist ''no successful result''
        (''Order not filled in time'' @ [CHR 0x0A] @ ''Last result: undefined'')
   \<and> \<not> sublist ''500'' (''Order not filled in time'' @ [CHR 0x0A] @ ''Last result: undefined'')
   \<and> \<not> sublist ''1'' (''Order not filled in time'' @ [CHR 0x0A] @ ''Last result: undefined'')"
  by (simp add: pollUntil_def pollLoop.simps pollAttempt_def Let_def num_or_def str_or_def
      start_state_def sleep_st_def setTimeout_ms_def logFailure_def timeoutError_def
      JSON_stringify_def sublist_Cons_right)

subsection \<open>Exceptions of the condition\<close>

lemma pollLoop_attempts_mono:
  assumes "pollLoop fn c mw iv st = (x, st')"
  shows "attempts st \<le> attempts st'"
proof (rule pollLoop_invariant [OF assms, where I = "\<lambda>s. attempts st \<le> attempts s"])
  show "attempts st \<le> attempts st" by simp
next
  fix s r s'
  assume "attempts st \<le> attempts s" and "pollAttempt fn c s = Return r s'"
  then show "attempts st \<le> attempts s'"
    using pollAttempt_Return [of fn c s r s'] by simp
next
  fix s s'
  assume "attempts st \<le> attempts s" and "pollAttempt fn c s = Continue s'"
  then show "attempts st \<le> attempts (sleep_st iv s')"
    using pollAttempt_Continue [of fn c s s'] by (simp add: sleep_st_def)
qed

lemma pollLoop_attempts_progress:
  assumes "pollLoop fn c mw iv st = (x, st')" and "int (clock st) < mw"
  shows "Suc (attempts st) \<le> attempts st'"
proof (cases "pollAttempt fn c st")
  case (Return r s1)
  with assms have "st' = s1"
    by (subst (asm) pollLoop.simps) simp
  with Return pollAttempt_Return [of fn c st r s1] show ?thesis
    by simp
next
  case (Continue s1)
  with assms have "pollLoop fn c mw iv (sleep_st iv s1) = (x, st')"
    by (subst (asm) pollLoop.simps) simp
  from pollLoop_attempts_mono [OF this] pollAttempt_Continue [OF Continue] show ?thesis
    by (simp add: sleep_st_def)
qed

lemma pollAttempt_condition_throws:
  assumes "snd (fn (Suc (attempts st))) = Inr x" and "c x = Inl e"
  shows "pollAttempt fn c st =
     Continue (logFailure (Suc (attempts st)) e
       (st\<lparr>clock := clock st + fst (fn (Suc (attempts st))), attempts := Suc (attempts st),
           lastResult := Some x\<rparr>))"
  using assms by (simp add: pollAttempt_def Let_def)

text \<open>While the condition throws and time remains, each pass logs one line and sleeps
  once.\<close>

lemma pollLoop_condition_throws:
  assumes "\<forall>i. attempts st < i \<and> i \<le> attempts st + n \<longrightarrow>
      snd (fn i) = Inr (res i) \<and> c (res i) = Inl (msg i)"
    and "int (clock st + elapsedAfter fn (setTimeout_ms iv) (attempts st) n) < mw"
  shows "\<exists>st1. pollLoop fn c mw iv st = pollLoop fn c mw iv st1 \<and> attempts st1 = attempts st + n
     \<and> clock st1 = clock st + elapsedAfter fn (setTimeout_ms iv) (attempts st) n
     \<and> sleeps st1 = sleeps st @ replicate n iv
     \<and> console st1 = console st @
          map (\<lambda>i. ''[pollUntil] Attempt '' @ show_nat i @ '' failed: '' @ msg i)
            [Suc (attempts st)..<Suc (attempts st + n)]"
  using assms
proof (induction n arbitrary: st)
  case 0
  show ?case
    by (intro exI [of _ st]) simp
next
  case (Suc n)
  let ?a = "attempts st"
  let ?line = "\<lambda>i. ''[pollUntil] Attempt '' @ show_nat i @ '' failed: '' @ msg i"
  let ?s1 = "logFailure (Suc ?a) (msg (Suc ?a))
      (st\<lparr>clock := clock st + fst (fn (Suc ?a)), attempts := Suc ?a,
          lastResult := Some (res (Suc ?a))\<rparr>)"
  let ?s2 = "sleep_st iv ?s1"
  have "snd (fn (Suc ?a)) = Inr (res (Suc ?a))" and "c (res (Suc ?a)) = Inl (msg (Suc ?a))"
    using Suc.prems(1) by simp_all
  then have att: "pollAttempt fn c st = Continue ?s1"
    by (rule pollAttempt_condition_throws)
  have a2: "attempts ?s2 = Suc ?a"
    and c2: "clock ?s2 = clock st + fst (fn (Suc ?a)) + setTimeout_ms iv"
    and s2: "sleeps ?s2 = sleeps st @ [iv]"
    and l2: "console ?s2 = console st @ [?line (Suc ?a)]"
    by (simp_all add: sleep_st_def logFailure_def)
  have run: "int (clock st) < mw"
    using Suc.prems(2) by simp
  have step: "pollLoop fn c mw iv st = pollLoop fn c mw iv ?s2"
    using run att by (subst pollLoop.simps) simp
  have p1: "\<forall>i. attempts ?s2 < i \<and> i \<le> attempts ?s2 + n \<longrightarrow>
      snd (fn i) = Inr (res i) \<and> c (res i) = Inl (msg i)"
    using Suc.prems(1) a2 by simp
  have p2: "int (clock ?s2 + elapsedAfter fn (setTimeout_ms iv) (attempts ?s2) n) < mw"
    using Suc.prems(2) a2 c2 by (simp add: add.assoc)
  from Suc.IH [OF p1 p2] obtain st1 where st1:
    "pollLoop fn c mw iv ?s2 = pollLoop fn c mw iv st1" "attempts st1 = attempts ?s2 + n"
    "clock st1 = clock ?s2 + elapsedAfter fn (setTimeout_ms iv) (attempts ?s2) n"
    "sleeps st1 = sleeps ?s2 @ replicate n iv"
    "console st1 = console ?s2 @ map ?line [Suc (attempts ?s2)..<Suc (attempts ?s2 + n)]"
    by blast
  have upt: "[Suc ?a..<Suc (?a + Suc n)] = Suc ?a # [Suc (Suc ?a)..<Suc (Suc ?a + n)]"
    by (simp add: upt_conv_Cons)
  have "pollLoop fn c mw iv st = pollLoop fn c mw iv st1"
    using step st1(1) by simp
  moreover have "attempts st1 = ?a + Suc n"
    using st1(2) a2 by simp
  moreover have "clock st1 = clock st + elapsedAfter fn (setTimeout_ms iv) ?a (Suc n)"
    using st1(3) a2 c2 by (simp add: add.assoc)
  moreover have "sleeps st1 = sleeps st @ replicate (Suc n) iv"
    using st1(4) s2 by (simp add: replicate_app_Cons_same)
  moreover have "console st1 = console st @ map ?line [Suc ?a..<Suc (?a + Suc n)]"
    using st1(5) a2 l2 upt by (simp del: upt_Suc)
  ultimately show ?case
    by blast
qed

text \<open>The loop only ever appends to the list of sleeps and to the log.\<close>

lemma pollLoop_appends:
  assumes "pollLoop fn c mw iv st = (x, st')"
  shows "prefix (sleeps st) (sleeps st') \<and> prefix (console st) (console st')"
proof (rule pollLoop_invariant [OF assms,
    where I = "\<lambda>s. prefix (sleeps st) (sleeps s) \<and> prefix (console st) (console s)"])
  show "prefix (sleeps st) (sleeps st) \<and> prefix (console st) (console st)"
    by simp
next
  fix s r s'
  assume "prefix (sleeps st) (sleeps s) \<and> prefix (console st) (console s)"
    and "pollAttempt fn c s = Return r s'"
  then show "prefix (sleeps st) (sleeps s') \<and> prefix (console st) (console s')"
    by (auto simp: pollAttempt_def Let_def logFailure_def split: sum.splits if_splits)
next
  fix s s'
  assume "prefix (sleeps st) (sleeps s) \<and> prefix (console st) (console s)"
    and "pollAttempt fn c s = Continue s'"
  then show "prefix (sleeps st) (sleeps (sleep_st iv s'))
      \<and> prefix (console st) (console (sleep_st iv s'))"
    by (auto simp: pollAttempt_def Let_def logFailure_def sleep_st_def prefix_def
        split: sum.splits if_splits)
qed

lemma pollUntil_snd:
  "snd (pollUntil stringify fn c options) =
     snd (pollLoop fn c (num_or (maxWait options) 30000) (num_or (pollInterval options) 1000)
       start_state)"
  by (simp add: pollUntil_def Let_def split: prod.splits option.splits)

lemma pollUntil_fails_late:
  assumes "fst (pollUntil stringify fn c options) = Inl m"
  shows "num_or (maxWait options) 30000 \<le> int (clock (snd (pollUntil stringify fn c options)))"
proof (cases rule: pollUntil_cases [of fn c options stringify])
  case (returns r st')
  with assms show ?thesis by simp
next
  case (throws st')
  with pollLoop_None [OF throws(1)] show ?thesis by simp
qed

text \<open>
  Claim C1, as amended. An exception of the condition is caught by the same handler as a
  failure of the polled function: it is logged, the loop sleeps for the effective
  \<^verbatim>\<open>pollInterval\<close> and polling goes on. If the condition throws on the results of the
  first \<open>N\<close> calls and the clock at the head of the loop is still below the effective
  \<^verbatim>\<open>maxWait\<close> after them, then the run has logged one line for each of these exceptions,
  with the number of the attempt and the message thrown, has slept after each of them, and
  has made call \<open>N + 1\<close>. If that call returns a result on which the condition is true,
  \<^verbatim>\<open>pollUntil\<close> returns it, with nothing else logged or slept. And whenever
  \<^verbatim>\<open>pollUntil\<close> fails, the deadline has passed.
\<close>

theorem pollUntil_predicate_exception_suppressed:
  assumes "\<forall>i. 1 \<le> i \<and> i \<le> N \<longrightarrow> snd (fn i) = Inr (res i) \<and> condition (res i) = Inl (msg i)"
    and "int (elapsedAfter fn (setTimeout_ms (num_or (pollInterval options) 1000)) 0 N)
           < num_or (maxWait options) 30000"
  shows "Suc N \<le> attempts (snd (pollUntil stringify fn condition options))
     \<and> take N (console (snd (pollUntil stringify fn condition options)))
         = map (\<lambda>i. ''[pollUntil] Attempt '' @ show_nat i @ '' failed: '' @ msg i) [1..<Suc N]
     \<and> take N (sleeps (snd (pollUntil stringify fn condition options)))
         = replicate N (num_or (pollInterval options) 1000)
     \<and> (\<forall>r. snd (fn (Suc N)) = Inr r \<and> condition r = Inr True \<longrightarrow>
           fst (pollUntil stringify fn condition options) = Inr r
           \<and> attempts (snd (pollUntil stringify fn condition options)) = Suc N
           \<and> console (snd (pollUntil stringify fn condition options))
               = map (\<lambda>i. ''[pollUntil] Attempt '' @ show_nat i @ '' failed: '' @ msg i) [1..<Suc N]
           \<and> sleeps (snd (pollUntil stringify fn condition options))
               = replicate N (num_or (pollInterval options) 1000))
     \<and> (\<forall>m. fst (pollUntil stringify fn condition options) = Inl m \<longrightarrow>
           num_or (maxWait options) 30000
             \<le> int (clock (snd (pollUntil stringify fn condition options))))"
proof -
  let ?iv = "num_or (pollInterval options) 1000" and ?mw = "num_or (maxWait options) 30000"
  let ?lines = "map (\<lambda>i. ''[pollUntil] Attempt '' @ show_nat i @ '' failed: '' @ msg i) [1..<Suc N]"
  let ?final = "snd (pollUntil stringify fn condition options)"
  have "\<forall>i. attempts (start_state :: 'a poll_state) < i
      \<and> i \<le> attempts (start_state :: 'a poll_state) + N \<longrightarrow>
        snd (fn i) = Inr (res i) \<and> condition (res i) = Inl (msg i)"
    using assms(1) by (simp add: start_state_def Suc_le_eq)
  moreover have "int (clock (start_state :: 'a poll_state)
      + elapsedAfter fn (setTimeout_ms ?iv) (attempts (start_state :: 'a poll_state)) N) < ?mw"
    using assms(2) by (simp add: start_state_def)
  ultimately obtain st1 where
    st1: "pollLoop fn condition ?mw ?iv start_state = pollLoop fn condition ?mw ?iv st1"
      "attempts st1 = N" "clock st1 = elapsedAfter fn (setTimeout_ms ?iv) 0 N"
      "sleeps st1 = replicate N ?iv" "console st1 = ?lines"
    using pollLoop_condition_throws [of start_state N fn res condition msg ?iv ?mw]
    by (auto simp: start_state_def)
  have intime: "int (clock st1) < ?mw"
    using assms(2) st1(3) by simp
  obtain x st' where run: "pollLoop fn condition ?mw ?iv st1 = (x, st')"
    by (cases "pollLoop fn condition ?mw ?iv st1")
  have final: "?final = st'"
    using st1(1) run by (simp add: pollUntil_snd)
  have first: "Suc N \<le> attempts ?final"
    using pollLoop_attempts_progress [OF run intime] st1(2) final by simp
  from pollLoop_appends [OF run] obtain zs ws where
    "sleeps st' = sleeps st1 @ zs" and "console st' = console st1 @ ws"
    by (auto simp: prefix_def)
  then have logged: "take N (console ?final) = ?lines"
    and slept: "take N (sleeps ?final) = replicate N ?iv"
    using st1(4,5) final by simp_all
  have second: "fst (pollUntil stringify fn condition options) = Inr r
      \<and> attempts ?final = Suc N \<and> console ?final = ?lines \<and> sleeps ?final = replicate N ?iv"
    if r: "snd (fn (Suc N)) = Inr r \<and> condition r = Inr True" for r
  proof -
    from r st1(2) have "snd (fn (Suc (attempts st1))) = Inr r" and "condition r = Inr True"
      by simp_all
    from pollAttempt_success [of fn st1 r condition, OF this] intime
    have "pollLoop fn condition ?mw ?iv st1 =
        (Some r, st1\<lparr>clock := clock st1 + fst (fn (Suc (attempts st1))),
           attempts := Suc (attempts st1), lastResult := Some r\<rparr>)"
      by (subst pollLoop.simps) simp
    with st1(1) have whole: "pollLoop fn condition ?mw ?iv start_state =
        (Some r, st1\<lparr>clock := clock st1 + fst (fn (Suc (attempts st1))),
           attempts := Suc (attempts st1), lastResult := Some r\<rparr>)"
      by simp
    from pollUntil_returns [OF whole, of stringify] st1(2,4,5) show ?thesis
      by simp
  qed
  have third: "\<forall>m. fst (pollUntil stringify fn condition options) = Inl m \<longrightarrow>
      ?mw \<le> int (clock ?final)"
    using pollUntil_fails_late by blast
  from first logged slept second third show ?thesis
    by blast
qed

theorem pollUntil_predicate_exception_suppressed_witness:
  "fst (pollUntil show_nat (\<lambda>k. (0, Inr k))
        (\<lambda>v. if v = 1 then Inl ''cannot read status'' else Inr True)
        \<lparr>maxWait = None, pollInterval = None, timeoutMessage = None\<rparr>) = Inr 2
   \<and> attempts (snd (pollUntil show_nat (\<lambda>k. (0, Inr k))
        (\<lambda>v. if v = 1 then Inl ''cannot read status'' else Inr True)
        \<lparr>maxWait = None, pollInterval = None, timeoutMessage = None\<rparr>)) = 2
   \<and> console (snd (pollUntil show_nat (\<lambda>k. (0, Inr k))
        (\<lambda>v. if v = 1 then Inl ''cannot read status'' else Inr True)
        \<lparr>maxWait = None, pollInterval = None, timeoutMessage = None\<rparr>))
     = [''[pollUntil] Attempt 1 failed: cannot read status'']
   \<and> sleeps (snd (pollUntil show_nat (\<lambda>k. (0, Inr k))
        (\<lambda>v. if v = 1 then Inl ''cannot read status'' else Inr True)
        \<lparr>maxWait = None, pollInterval = None, timeoutMessage = None\<rparr>)) = [1000]"
proof -
  let ?fn = "\<lambda>k::nat. (0::nat, Inr k :: string + nat)"
  let ?c = "\<lambda>v::nat. if v = 1 then Inl ''cannot read status'' else (Inr True :: string + bool)"
  let ?opts = "\<lparr>maxWait = None, pollInterval = None, timeoutMessage = None\<rparr>"
  have h1: "\<forall>i. 1 \<le> i \<and> i \<le> (1::nat) \<longrightarrow>
      snd (?fn i) = Inr ((\<lambda>i. i) i) \<and> ?c ((\<lambda>i. i) i) = Inl ((\<lambda>i. ''cannot read status'') i)"
    by auto
  have h2: "int (elapsedAfter ?fn (setTimeout_ms (num_or (pollInterval ?opts) 1000)) 0 1)
      < num_or (maxWait ?opts) 30000"
    by (simp add: num_or_def setTimeout_ms_def)
  from pollUntil_predicate_exception_suppressed [where N = 1 and fn = ?fn and condition = ?c
      and res = "\<lambda>i. i" and msg = "\<lambda>i. ''cannot read status''"
      and options = ?opts and stringify = show_nat, OF h1 h2]
  show ?thesis
    by (simp add: num_or_def show_nat.simps digit_def)
qed

theorem pollUntil_predicate_exception_counterexample:
  "fst (pollUntil show_nat (\<lambda>k. (0, Inr k)) (\<lambda>v. Inl ''boom'')
        \<lparr>maxWait = Some 2500, pollInterval = None, timeoutMessage = Some ''gave up''\<rparr>)
     = Inl (''gave up'' @ [CHR 0x0A] @ ''Last result: 3'')
   \<and> attempts (snd (pollUntil show_nat (\<lambda>k. (0, Inr k)) (\<lambda>v. Inl ''boom'')
        \<lparr>maxWait = Some 2500, pollInterval = None, timeoutMessage = Some ''gave up''\<rparr>)) = 3
   \<and> sleeps (snd (pollUntil show_nat (\<lambda>k. (0, Inr k)) (\<lambda>v. Inl ''boom'')
        \<lparr>maxWait = Some 2500, pollInterval = None, timeoutMessage = Some ''gave up''\<rparr>))
     = [1000, 1000, 1000]
   \<and> console (snd (pollUntil show_nat (\<lambda>k. (0, Inr k)) (\<lambda>v. Inl ''boom'')
        \<lparr>maxWait = Some 2500, pollInterval = None, timeoutMessage = Some ''gave up''\<rparr>))
     = [''[pollUntil] Attempt 1 failed: boom'', ''[pollUntil] Attempt 2 failed: boom'',
        ''[pollUntil] Attempt 3 failed: boom'']"
  by (simp add: pollUntil_def pollLoop.simps pollAttempt_def Let_def num_or_def str_or_def
      start_state_def sleep_st_def setTimeout_ms_def logFailure_def timeoutError_def
      JSON_stringify_def show_nat.simps digit_def)

subsection \<open>A deadline shorter than the interval\<close>

lemma pollLoop_single_attempt:
  assumes "0 < mw" and "mw \<le> int (setTimeout_ms iv)" and "clock st = 0"
  shows "attempts (snd (pollLoop fn c mw iv st)) = Suc (attempts st)
     \<and> (unsuccessful fn c (Suc (attempts st)) \<longrightarrow>
           fst (pollLoop fn c mw iv st) = None
           \<and> sleeps (snd (pollLoop fn c mw iv st)) = sleeps st @ [iv])"
proof (cases "pollAttempt fn c st")
  case (Return r s1)
  then have "pollLoop fn c mw iv st = (Some r, s1)"
    using assms(1,3) by (subst pollLoop.simps) simp
  moreover have "\<not> unsuccessful fn c (Suc (attempts st))" and "attempts s1 = Suc (attempts st)"
    using pollAttempt_Return [OF Return] by (simp_all add: unsuccessful_def)
  ultimately show ?thesis by simp
next
  case (Continue s1)
  have "mw \<le> int (clock (sleep_st iv s1))"
    using assms(2) by (simp add: sleep_st_def)
  then have "pollLoop fn c mw iv (sleep_st iv s1) = (None, sleep_st iv s1)"
    by (subst pollLoop.simps) simp
  then have "pollLoop fn c mw iv st = (None, sleep_st iv s1)"
    using Continue assms(1,3) by (subst pollLoop.simps) simp
  with pollAttempt_Continue [OF Continue] show ?thesis
    by (simp add: sleep_st_def)
qed

text \<open>
  Claim C2, as amended. With \<open>0 < maxWait < pollInterval\<close> (and \<^verbatim>\<open>pollInterval\<close> within
  the range of the timer, at most \<open>2^31 - 1\<close>), \<^verbatim>\<open>pollUntil\<close> calls the polled function
  exactly once: the first test of the loop reads an elapsed time of 0, which is below
  \<^verbatim>\<open>maxWait\<close>. If that attempt does not end the poll, one sleep of \<^verbatim>\<open>pollInterval\<close>
  follows and \<^verbatim>\<open>pollUntil\<close> then fails with the timeout error.
\<close>

theorem pollUntil_short_deadline_one_attempt:
  assumes "maxWait options = Some w" and "pollInterval options = Some p"
    and "0 < w" and "w < p" and "p \<le> 2147483647"
  shows "attempts (snd (pollUntil stringify fn condition options)) = 1
     \<and> (unsuccessful fn condition 1 \<longrightarrow>
           sleeps (snd (pollUntil stringify fn condition options)) = [p]
           \<and> fst (pollUntil stringify fn condition options)
               = Inl (timeoutError stringify options w
                   (snd (pollUntil stringify fn condition options))))"
proof -
  have mw: "num_or (maxWait options) 30000 = w" and iv: "num_or (pollInterval options) 1000 = p"
    using assms by (simp_all add: num_or_def)
  have "w \<le> int (setTimeout_ms p)"
    using assms(3,4,5) by (simp add: setTimeout_ms_def)
  from pollLoop_single_attempt [OF assms(3) this, of start_state fn condition]
  have one: "attempts (snd (pollLoop fn condition w p start_state)) = 1"
    and fail: "unsuccessful fn condition 1 \<Longrightarrow>
      fst (pollLoop fn condition w p start_state) = None
      \<and> sleeps (snd (pollLoop fn condition w p start_state)) = [p]"
    by (simp_all add: start_state_def)
  have "attempts (snd (pollUntil stringify fn condition options)) = 1"
    using one by (simp add: pollUntil_snd mw iv)
  moreover have "sleeps (snd (pollUntil stringify fn condition options)) = [p]
      \<and> fst (pollUntil stringify fn condition options)
          = Inl (timeoutError stringify options w (snd (pollUntil stringify fn condition options)))"
    if "unsuccessful fn condition 1"
  proof (cases rule: pollUntil_cases [of fn condition options stringify])
    case (returns r st')
    with fail [OF that] show ?thesis by (simp add: mw iv)
  next
    case (throws st')
    with fail [OF that] show ?thesis by (simp add: mw iv)
  qed
  ultimately show ?thesis by blast
qed

theorem pollUntil_short_deadline_one_attempt_witness:
  "attempts (snd (pollUntil (\<lambda>v::jsval. ''{}'')
        (\<lambda>k. (30, Inr (JObj [(''status'', JStr ''pending'')])))
        (\<lambda>v. Inr False)
        \<lparr>maxWait = Some 500, pollInterval = Some 1000, timeoutMessage = None\<rparr>)) = 1
   \<and> sleeps (snd (pollUntil (\<lambda>v::jsval. ''{}'')
        (\<lambda>k. (30, Inr (JObj [(''status'', JStr ''pending'')])))
        (\<lambda>v. Inr False)
        \<lparr>maxWait = Some 500, pollInterval = Some 1000, timeoutMessage = None\<rparr>)) = [1000]"
proof -
  let ?fn = "\<lambda>k::nat. (30::nat, Inr (JObj [(''status'', JStr ''pending'')]) :: string + jsval)"
  let ?c = "\<lambda>v::jsval. (Inr False :: string + bool)"
  let ?opts = "\<lparr>maxWait = Some 500, pollInterval = Some 1000, timeoutMessage = None\<rparr>"
  have u: "unsuccessful ?fn ?c 1"
    by (simp add: unsuccessful_def)
  from pollUntil_short_deadline_one_attempt [where options = ?opts and w = 500 and p = 1000
      and fn = ?fn and condition = ?c and stringify = "\<lambda>v. ''{}''"] u
  show ?thesis
    by simp
qed

theorem pollUntil_short_deadline_counterexample:
  "attempts (snd (pollUntil (\<lambda>v::jsval. ''{}'') (\<lambda>k. (0, Inl ''not found''))
        (\<lambda>v. Inr True)
        \<lparr>maxWait = Some 500, pollInterval = Some 1000, timeoutMessage = None\<rparr>)) = 1
   \<and> console (snd (pollUntil (\<lambda>v::jsval. ''{}'') (\<lambda>k. (0, Inl ''not found''))
        (\<lambda>v. Inr True)
        \<lparr>maxWait = Some 500, pollInterval = Some 1000, timeoutMessage = None\<rparr>))
      = [''[pollUntil] Attempt 1 failed: not found'']
   \<and> clock (snd (pollUntil (\<lambda>v::jsval. ''{}'') (\<lambda>k. (0, Inl ''not found''))
        (\<lambda>v. Inr True)
        \<lparr>maxWait = Some 500, pollInterval = Some 1000, timeoutMessage = None\<rparr>)) = 1000"
  by (simp add: pollUntil_def pollLoop.simps pollAttempt_def Let_def num_or_def str_or_def
      start_state_def sleep_st_def setTimeout_ms_def logFailure_def show_nat.simps digit_def)

subsection \<open>Facts about \<^verbatim>\<open>retry\<close>\<close>

lemma retryLoop_trace:
  assumes "retryLoop fn maxAtt initD maxD factor attempt st = (x, st')"
    and "int attempt \<le> maxAtt"
    and "Suc (calls st) = attempt"
    and "slept st = map (backoffDelay initD factor maxD) [1..<attempt]"
  shows "slept st' = map (backoffDelay initD factor maxD) [1..<calls st']
     \<and> attempt \<le> calls st' \<and> int (calls st') \<le> maxAtt
     \<and> (\<forall>i. attempt \<le> i \<and> i < calls st' \<longrightarrow> isl (fn i))
     \<and> (case x of None \<Rightarrow> int (calls st') = maxAtt \<and> isl (fn (calls st'))
         | Some v \<Rightarrow> fn (calls st') = Inr v)"
  using assms
proof (induction fn maxAtt initD maxD factor attempt st rule: retryLoop.induct)
  case (1 fn maxAtt initD maxD factor attempt st)
  show ?case
  proof (cases "fn attempt")
    case (Inr v)
    with "1.prems" show ?thesis
      by (subst (asm) retryLoop.simps) auto
  next
    case (Inl e)
    show ?thesis
    proof (cases "int attempt = maxAtt")
      case True
      with Inl "1.prems" show ?thesis
        by (subst (asm) retryLoop.simps) (auto simp: Let_def)
    next
      case False
      let ?st1 = "st\<lparr>calls := calls st + 1, lastError := Some e\<rparr>"
      let ?delay = "backoffDelay initD factor maxD attempt"
      let ?st2 = "logRetry attempt ?delay ?st1"
      let ?st3 = "?st2\<lparr>slept := slept ?st2 @ [?delay]\<rparr>"
      have run: "retryLoop fn maxAtt initD maxD factor (attempt + 1) ?st3 = (x, st')"
        using "1.prems"(1,2) Inl False by (subst (asm) retryLoop.simps) (simp add: Let_def)
      have a: "int (attempt + 1) \<le> maxAtt"
        using "1.prems"(2) False by simp
      have b: "Suc (calls ?st3) = attempt + 1"
        using "1.prems"(3) by (simp add: logRetry_def)
      have "1 \<le> attempt"
        using "1.prems"(3) by simp
      then have c: "slept ?st3 = map (backoffDelay initD factor maxD) [1..<attempt + 1]"
        using "1.prems"(4) by (simp add: logRetry_def)
      from "1.IH" [OF "1.prems"(2) Inl refl False refl refl run a b c]
      have ih: "slept st' = map (backoffDelay initD factor maxD) [1..<calls st']"
        "attempt + 1 \<le> calls st'" "int (calls st') \<le> maxAtt"
        "\<forall>i. attempt + 1 \<le> i \<and> i < calls st' \<longrightarrow> isl (fn i)"
        "case x of None \<Rightarrow> int (calls st') = maxAtt \<and> isl (fn (calls st'))
         | Some v \<Rightarrow> fn (calls st') = Inr v"
        by simp_all
      have "\<forall>i. attempt \<le> i \<and> i < calls st' \<longrightarrow> isl (fn i)"
      proof (intro allI impI)
        fix i
        assume i: "attempt \<le> i \<and> i < calls st'"
        show "isl (fn i)"
        proof (cases "i = attempt")
          case True
          with Inl show ?thesis by simp
        next
          case False
          with i ih(4) show ?thesis by simp
        qed
      qed
      with ih show ?thesis by simp
    qed
  qed
qed

lemma retry_snd:
  "snd (retry fn options) =
     snd (retryLoop fn (num_or (maxAttempts options) 3) (num_or (initialDelay options) 1000)
       (num_or (maxDelay options) 10000) (num_or (backoffFactor options) 2) 1 retry_start)"
  by (simp add: retry_def Let_def split: prod.splits option.splits)

lemma retry_trace:
  fixes fn :: "nat \<Rightarrow> string + 'a"
  defines "delay \<equiv> \<lambda>options. backoffDelay (num_or (initialDelay options) 1000)
      (num_or (backoffFactor options) 2) (num_or (maxDelay options) 10000)"
  shows "slept (snd (retry fn options)) = map (delay options) [1..<calls (snd (retry fn options))]
     \<and> calls (snd (retry fn options)) \<le> nat (num_or (maxAttempts options) 3)
     \<and> (\<forall>i. 1 \<le> i \<and> i < calls (snd (retry fn options)) \<longrightarrow> isl (fn i))
     \<and> (1 \<le> num_or (maxAttempts options) 3 \<longrightarrow>
          1 \<le> calls (snd (retry fn options))
          \<and> (int (calls (snd (retry fn options))) = num_or (maxAttempts options) 3
              \<or> \<not> isl (fn (calls (snd (retry fn options))))))"
proof (cases "1 \<le> num_or (maxAttempts options) 3")
  case True
  let ?maxAtt = "num_or (maxAttempts options) 3"
  obtain x st' where run: "retryLoop fn ?maxAtt (num_or (initialDelay options) 1000)
       (num_or (maxDelay options) 10000) (num_or (backoffFactor options) 2) 1 retry_start = (x, st')"
    by (cases "retryLoop fn ?maxAtt (num_or (initialDelay options) 1000)
       (num_or (maxDelay options) 10000) (num_or (backoffFactor options) 2) 1 retry_start")
  have a: "int 1 \<le> ?maxAtt" using True by simp
  have b: "Suc (calls retry_start) = 1" by (simp add: retry_start_def)
  have c: "slept retry_start = map (backoffDelay (num_or (initialDelay options) 1000)
      (num_or (backoffFactor options) 2) (num_or (maxDelay options) 10000)) [1..<1]"
    by (simp add: retry_start_def)
  have st': "snd (retry fn options) = st'"
    using run by (simp add: retry_snd)
  from retryLoop_trace [OF run a b c] True show ?thesis
    unfolding st' delay_def by (cases x) auto
next
  case False
  then have "retryLoop fn (num_or (maxAttempts options) 3) (num_or (initialDelay options) 1000)
       (num_or (maxDelay options) 10000) (num_or (backoffFactor options) 2) 1 retry_start
       = (None, retry_start)"
    by (subst retryLoop.simps) simp
  with False show ?thesis
    by (simp add: retry_snd retry_start_def)
qed




subsection \<open>Zero-valued options\<close>

lemma pollLoop_sleeps:
  assumes "pollLoop fn c mw iv st = (x, st')" and "set (sleeps st) \<subseteq> {iv}"
  shows "set (sleeps st') \<subseteq> {iv}"
proof (rule pollLoop_invariant [OF assms(1), where I = "\<lambda>s. set (sleeps s) \<subseteq> {iv}"])
  show "set (sleeps st) \<subseteq> {iv}" by (rule assms(2))
next
  fix s r s'
  assume "set (sleeps s) \<subseteq> {iv}" and "pollAttempt fn c s = Return r s'"
  then show "set (sleeps s') \<subseteq> {iv}"
    using pollAttempt_Return [of fn c s r s'] by simp
next
  fix s s'
  assume "set (sleeps s) \<subseteq> {iv}" and "pollAttempt fn c s = Continue s'"
  then show "set (sleeps (sleep_st iv s')) \<subseteq> {iv}"
    using pollAttempt_Continue [of fn c s s'] by (simp add: sleep_st_def)
qed

text \<open>
  Claim C9. A zero passed for an option is replaced by the default, as an omitted option
  is: \<^verbatim>\<open>pollUntil\<close> with \<^verbatim>\<open>maxWait = 0\<close> is \<^verbatim>\<open>pollUntil\<close> with \<^verbatim>\<open>maxWait = 30000\<close>,
  with \<^verbatim>\<open>pollInterval = 0\<close> it is \<^verbatim>\<open>pollUntil\<close> with \<^verbatim>\<open>pollInterval = 1000\<close>, an empty
  \<^verbatim>\<open>timeoutMessage\<close> is an omitted one, and \<^verbatim>\<open>retry\<close> with \<^verbatim>\<open>maxAttempts = 0\<close>,
  \<^verbatim>\<open>initialDelay = 0\<close>, \<^verbatim>\<open>maxDelay = 0\<close> or \<^verbatim>\<open>backoffFactor = 0\<close> is \<^verbatim>\<open>retry\<close> with 3,
  1000, 10000 or 2 there. So an explicit zero gives at least one attempt of the poll, only
  sleeps of 1000 ms, and at least one call of the retried operation.
\<close>

theorem falsy_options_take_defaults:
  "pollUntil stringify fn condition (options\<lparr>maxWait := Some 0\<rparr>)
     = pollUntil stringify fn condition (options\<lparr>maxWait := Some 30000\<rparr>)
   \<and> pollUntil stringify fn condition (options\<lparr>maxWait := None\<rparr>)
     = pollUntil stringify fn condition (options\<lparr>maxWait := Some 30000\<rparr>)
   \<and> pollUntil stringify fn condition (options\<lparr>pollInterval := Some 0\<rparr>)
     = pollUntil stringify fn condition (options\<lparr>pollInterval := Some 1000\<rparr>)
   \<and> pollUntil stringify fn condition (options\<lparr>pollInterval := None\<rparr>)
     = pollUntil stringify fn condition (options\<lparr>pollInterval := Some 1000\<rparr>)
   \<and> pollUntil stringify fn condition (options\<lparr>timeoutMessage := Some []\<rparr>)
     = pollUntil stringify fn condition (options\<lparr>timeoutMessage := None\<rparr>)
   \<and> retry operation (roptions\<lparr>maxAttempts := Some 0\<rparr>)
     = retry operation (roptions\<lparr>maxAttempts := Some 3\<rparr>)
   \<and> retry operation (roptions\<lparr>initialDelay := Some 0\<rparr>)
     = retry operation (roptions\<lparr>initialDelay := Some 1000\<rparr>)
   \<and> retry operation (roptions\<lparr>maxDelay := Some 0\<rparr>)
     = retry operation (roptions\<lparr>maxDelay := Some 10000\<rparr>)
   \<and> retry operation (roptions\<lparr>backoffFactor := Some 0\<rparr>)
     = retry operation (roptions\<lparr>backoffFactor := Some 2\<rparr>)
   \<and> 1 \<le> attempts (snd (pollUntil stringify fn condition (options\<lparr>maxWait := Some 0\<rparr>)))
   \<and> set (sleeps (snd (pollUntil stringify fn condition (options\<lparr>pollInterval := Some 0\<rparr>))))
        \<subseteq> {1000}
   \<and> 1 \<le> calls (snd (retry operation (roptions\<lparr>maxAttempts := Some 0\<rparr>)))"
proof -
  have eqs: "pollUntil stringify fn condition (options\<lparr>maxWait := Some 0\<rparr>)
        = pollUntil stringify fn condition (options\<lparr>maxWait := Some 30000\<rparr>)"
      "pollUntil stringify fn condition (options\<lparr>maxWait := None\<rparr>)
        = pollUntil stringify fn condition (options\<lparr>maxWait := Some 30000\<rparr>)"
      "pollUntil stringify fn condition (options\<lparr>pollInterval := Some 0\<rparr>)
        = pollUntil stringify fn condition (options\<lparr>pollInterval := Some 1000\<rparr>)"
      "pollUntil stringify fn condition (options\<lparr>pollInterval := None\<rparr>)
        = pollUntil stringify fn condition (options\<lparr>pollInterval := Some 1000\<rparr>)"
      "pollUntil stringify fn condition (options\<lparr>timeoutMessage := Some []\<rparr>)
        = pollUntil stringify fn condition (options\<lparr>timeoutMessage := None\<rparr>)"
    by (simp_all add: pollUntil_def num_or_def timeoutError_def str_or_def
        split: prod.splits option.splits)
  have reqs: "retry operation (roptions\<lparr>maxAttempts := Some 0\<rparr>)
        = retry operation (roptions\<lparr>maxAttempts := Some 3\<rparr>)"
      "retry operation (roptions\<lparr>initialDelay := Some 0\<rparr>)
        = retry operation (roptions\<lparr>initialDelay := Some 1000\<rparr>)"
      "retry operation (roptions\<lparr>maxDelay := Some 0\<rparr>)
        = retry operation (roptions\<lparr>maxDelay := Some 10000\<rparr>)"
      "retry operation (roptions\<lparr>backoffFactor := Some 0\<rparr>)
        = retry operation (roptions\<lparr>backoffFactor := Some 2\<rparr>)"
    by (simp_all add: retry_def num_or_def split: prod.splits option.splits)
  let ?o1 = "options\<lparr>maxWait := Some 0\<rparr>" and ?o2 = "options\<lparr>pollInterval := Some 0\<rparr>"
  obtain x1 s1 where run1: "pollLoop fn condition (num_or (maxWait ?o1) 30000)
      (num_or (pollInterval ?o1) 1000) start_state = (x1, s1)"
    by (cases "pollLoop fn condition (num_or (maxWait ?o1) 30000)
      (num_or (pollInterval ?o1) 1000) (start_state :: 'a poll_state)")
  have "int (clock (start_state :: 'a poll_state)) < num_or (maxWait ?o1) 30000"
    by (simp add: start_state_def num_or_def)
  from pollLoop_attempts_progress [OF run1 this]
  have a: "1 \<le> attempts (snd (pollUntil stringify fn condition ?o1))"
    using run1 by (simp add: pollUntil_snd)
  obtain x2 s2 where run2: "pollLoop fn condition (num_or (maxWait ?o2) 30000)
      (num_or (pollInterval ?o2) 1000) start_state = (x2, s2)"
    by (cases "pollLoop fn condition (num_or (maxWait ?o2) 30000)
      (num_or (pollInterval ?o2) 1000) (start_state :: 'a poll_state)")
  have "set (sleeps (start_state :: 'a poll_state)) \<subseteq> {num_or (pollInterval ?o2) 1000}"
    by (simp add: start_state_def)
  from pollLoop_sleeps [OF run2 this]
  have b: "set (sleeps (snd (pollUntil stringify fn condition ?o2))) \<subseteq> {1000}"
    using run2 by (simp add: pollUntil_snd num_or_def)
  have c: "1 \<le> calls (snd (retry operation (roptions\<lparr>maxAttempts := Some 0\<rparr>)))"
    using retry_trace [of operation "roptions\<lparr>maxAttempts := Some 0\<rparr>"]
    by (simp add: num_or_def)
  from eqs reqs a b c show ?thesis
    by (intro conjI)
qed

theorem falsy_options_take_defaults_witness:
  "calls (snd (retry (\<lambda>k. Inl ''503'' :: string + jsval)
        \<lparr>maxAttempts = Some 0, initialDelay = Some 0, maxDelay = None, backoffFactor = None\<rparr>)) = 3
   \<and> attempts (snd (pollUntil (\<lambda>v::jsval. ''{}'') (\<lambda>k. (0, Inr JNull)) (\<lambda>v. Inr True)
        \<lparr>maxWait = Some 0, pollInterval = Some 0, timeoutMessage = None\<rparr>)) = 1"
proof -
  let ?op = "\<lambda>k::nat. Inl ''503'' :: string + jsval"
  let ?ro = "\<lparr>maxAttempts = Some 0, initialDelay = Some 0, maxDelay = None, backoffFactor = None\<rparr>"
  let ?fn = "\<lambda>k::nat. (0::nat, Inr JNull :: string + jsval)"
  let ?c = "\<lambda>v::jsval. Inr True :: string + bool"
  let ?po = "\<lparr>maxWait = Some 0, pollInterval = Some 0, timeoutMessage = None\<rparr>"
  note inst = falsy_options_take_defaults [where operation = ?op and roptions = ?ro
      and fn = ?fn and condition = ?c and options = ?po and stringify = "\<lambda>v::jsval. ''{}''"]
  have r: "calls (snd (retry ?op (?ro\<lparr>maxAttempts := Some 3\<rparr>))) = 3"
    by (simp add: retry_def retryLoop.simps Let_def num_or_def retry_start_def logRetry_def)
  have p: "attempts (snd (pollUntil (\<lambda>v::jsval. ''{}'') ?fn ?c (?po\<lparr>maxWait := Some 30000\<rparr>))) = 1"
    by (simp add: pollUntil_def pollLoop.simps pollAttempt_def Let_def num_or_def start_state_def)
  from inst r p show ?thesis
    by (simp del: One_nat_def)
qed

subsection \<open>Facts about the wrappers\<close>

lemma js_get_obj [simp]: "js_get (JObj kvs) key = Inr (own_property kvs key)"
  by (simp add: js_get_def)

lemma js_get_defined:
  assumes "js_get r key = Inr c"
  shows "\<exists>s. js_get r key' = Inr s"
  using assms by (cases r) (simp_all add: js_get_def)

lemma pollUntil_firstSatisfied:
  assumes "firstSatisfiedAt fn c (num_or (pollInterval options) 1000)
      (num_or (maxWait options) 30000) n r"
  shows "fst (pollUntil stringify fn c options) = Inr r
     \<and> attempts (snd (pollUntil stringify fn c options)) = Suc n
     \<and> sleeps (snd (pollUntil stringify fn c options)) = replicate n (num_or (pollInterval options) 1000)
     \<and> lastResult (snd (pollUntil stringify fn c options)) = Some r"
proof -
  from assms have h: "\<forall>i. 1 \<le> i \<and> i \<le> n \<longrightarrow> unsuccessful fn c i"
    "snd (fn (Suc n)) = Inr r" "c r = Inr True"
    "int (elapsedAfter fn (setTimeout_ms (num_or (pollInterval options) 1000)) 0 n)
       < num_or (maxWait options) 30000"
    by (simp_all add: firstSatisfiedAt_def)
  obtain x st' where run: "pollLoop fn c (num_or (maxWait options) 30000)
      (num_or (pollInterval options) 1000) start_state = (x, st')"
    by (cases "pollLoop fn c (num_or (maxWait options) 30000)
      (num_or (pollInterval options) 1000) (start_state :: 'a poll_state)")
  from pollUntil_reaches [OF h, of stringify]
  have main: "fst (pollUntil stringify fn c options) = Inr r
      \<and> attempts (snd (pollUntil stringify fn c options)) = Suc n
      \<and> sleeps (snd (pollUntil stringify fn c options)) = replicate n (num_or (pollInterval options) 1000)" .
  then have "x = Some r"
    using run by (cases x) (simp_all add: pollUntil_def Let_def)
  with run pollLoop_Some [of fn c _ _ start_state r st']
  have "lastResult st' = Some r"
    by simp
  then have "lastResult (snd (pollUntil stringify fn c options)) = Some r"
    using run by (simp add: pollUntil_snd)
  with main show ?thesis
    by simp
qed

lemma num_or_Some_nonzero:
  "x \<noteq> 0 \<Longrightarrow> num_or (Some x) d = x"
  by (simp add: num_or_def)

lemma wrapper_maxWait:
  "num_or (Some (case maxWaitArg of None \<Rightarrow> d | Some m \<Rightarrow> m)) 30000 = wrapperDeadline d maxWaitArg"
  by (simp add: wrapperDeadline_def)

text \<open>
  Claim C7. Called without \<^verbatim>\<open>maxWait\<close>, each wrapper runs \<^verbatim>\<open>pollUntil\<close> with its own
  condition and the timing of the table: 120 s and 5 s for bank accounts, 300 s and 10 s
  for ACH debits, 60 s and 2 s for orders, 600 s and 15 s for transfers (with a threshold
  of 1 confirmation when none is given), 120 s and 3 s for Lightning invoices, 300 s and
  10 s for identities. On an object, each condition is true exactly for the terminal
  states of the table, read from the status key the wrapper gives priority to; for
  transfers also when the number of confirmations reaches the threshold.
\<close>

theorem wrappers_fix_predicate_and_timing:
  "snd (waitForBankAccountVerification stringify getBankAccount bankAccountId None)
     = snd (pollUntil stringify (getBankAccount bankAccountId) bankAccountCondition
         \<lparr>maxWait = Some 120000, pollInterval = Some 5000,
          timeoutMessage = Some (''Bank account '' @ bankAccountId @ '' not verified after 120000ms'')\<rparr>)
   \<and> waitForAchDebitCompletion stringify fn None
     = pollUntil stringify fn achDebitCondition
         \<lparr>maxWait = Some 300000, pollInterval = Some 10000,
          timeoutMessage = Some ''ACH debit not completed in time''\<rparr>
   \<and> waitForOrderFill stringify fn None
     = pollUntil stringify fn orderFillCondition
         \<lparr>maxWait = Some 60000, pollInterval = Some 2000,
          timeoutMessage = Some ''Order not filled in time''\<rparr>
   \<and> waitForTransactionConfirmation stringify conv fn None None
     = pollUntil stringify fn (transactionCondition conv 1)
         \<lparr>maxWait = Some 600000, pollInterval = Some 15000,
          timeoutMessage = Some ''Transaction not confirmed after 600000ms''\<rparr>
   \<and> waitForLightningInvoicePaid stringify fn None
     = pollUntil stringify fn lightningInvoiceCondition
         \<lparr>maxWait = Some 120000, pollInterval = Some 3000,
          timeoutMessage = Some ''Lightning invoice not paid in time''\<rparr>
   \<and> waitForKycApproval stringify fn None
     = pollUntil stringify fn kycCondition
         \<lparr>maxWait = Some 300000, pollInterval = Some 10000,
          timeoutMessage = Some ''KYC identity not approved in time''\<rparr>
   \<and> bankAccountCondition (JObj kvs)
     = Inr (js_or (own_property kvs ''verificationState'') (own_property kvs ''status'') = JStr ''verified''
          \<or> js_or (own_property kvs ''verificationState'') (own_property kvs ''status'') = JStr ''approved'')
   \<and> achDebitCondition (JObj kvs)
     = Inr (own_property kvs ''status'' = JStr ''completed''
          \<or> own_property kvs ''status'' = JStr ''settled''
          \<or> own_property kvs ''status'' = JStr ''done'')
   \<and> orderFillCondition (JObj kvs)
     = Inr (own_property kvs ''status'' = JStr ''filled''
          \<or> own_property kvs ''status'' = JStr ''done''
          \<or> own_property kvs ''status'' = JStr ''settled'')
   \<and> transactionCondition conv threshold (JObj kvs)
     = Inr (own_property kvs ''status'' = JStr ''confirmed''
          \<or> own_property kvs ''status'' = JStr ''complete''
          \<or> num_ge (Number_js conv (js_or (own_property kvs ''confirmations'') (JNum 0))) threshold)
   \<and> num_ge (Number_js conv (js_or (JNum confirmations) (JNum 0))) threshold
     = (threshold \<le> confirmations)
   \<and> lightningInvoiceCondition (JObj kvs)
     = Inr (own_property kvs ''status'' = JStr ''paid''
          \<or> own_property kvs ''status'' = JStr ''settled''
          \<or> own_property kvs ''status'' = JStr ''completed'')
   \<and> kycCondition (JObj kvs)
     = Inr (js_or (own_property kvs ''status'') (own_property kvs ''verificationStatus'') = JStr ''approved''
          \<or> js_or (own_property kvs ''status'') (own_property kvs ''verificationStatus'') = JStr ''verified''
          \<or> js_or (own_property kvs ''status'') (own_property kvs ''verificationStatus'') = JStr ''complete'')"
proof -
  have n1: "show_int 120000 = ''120000''" and n2: "show_int 600000 = ''600000''"
    by (simp_all add: show_int_def show_nat.simps digit_def)
  have bank: "snd (waitForBankAccountVerification stringify getBankAccount bankAccountId None)
     = snd (pollUntil stringify (getBankAccount bankAccountId) bankAccountCondition
         \<lparr>maxWait = Some 120000, pollInterval = Some 5000,
          timeoutMessage = Some (''Bank account '' @ bankAccountId @ '' not verified after 120000ms'')\<rparr>)"
    by (simp add: waitForBankAccountVerification_def Let_def n1 split: sum.splits)
  have tx: "waitForTransactionConfirmation stringify conv fn None None
     = pollUntil stringify fn (transactionCondition conv 1)
         \<lparr>maxWait = Some 600000, pollInterval = Some 15000,
          timeoutMessage = Some ''Transaction not confirmed after 600000ms''\<rparr>"
    by (simp add: waitForTransactionConfirmation_def Let_def n2)
  have others: "waitForAchDebitCompletion stringify fn None
       = pollUntil stringify fn achDebitCondition
         \<lparr>maxWait = Some 300000, pollInterval = Some 10000,
          timeoutMessage = Some ''ACH debit not completed in time''\<rparr>"
    "waitForOrderFill stringify fn None
       = pollUntil stringify fn orderFillCondition
         \<lparr>maxWait = Some 60000, pollInterval = Some 2000,
          timeoutMessage = Some ''Order not filled in time''\<rparr>"
    "waitForLightningInvoicePaid stringify fn None
       = pollUntil stringify fn lightningInvoiceCondition
         \<lparr>maxWait = Some 120000, pollInterval = Some 3000,
          timeoutMessage = Some ''Lightning invoice not paid in time''\<rparr>"
    "waitForKycApproval stringify fn None
       = pollUntil stringify fn kycCondition
         \<lparr>maxWait = Some 300000, pollInterval = Some 10000,
          timeoutMessage = Some ''KYC identity not approved in time''\<rparr>"
    by (simp_all add: waitForAchDebitCompletion_def waitForOrderFill_def
        waitForLightningInvoicePaid_def waitForKycApproval_def)
  have conds: "bankAccountCondition (JObj kvs)
     = Inr (js_or (own_property kvs ''verificationState'') (own_property kvs ''status'') = JStr ''verified''
          \<or> js_or (own_property kvs ''verificationState'') (own_property kvs ''status'') = JStr ''approved'')"
    "achDebitCondition (JObj kvs)
     = Inr (own_property kvs ''status'' = JStr ''completed''
          \<or> own_property kvs ''status'' = JStr ''settled''
          \<or> own_property kvs ''status'' = JStr ''done'')"
    "orderFillCondition (JObj kvs)
     = Inr (own_property kvs ''status'' = JStr ''filled''
          \<or> own_property kvs ''status'' = JStr ''done''
          \<or> own_property kvs ''status'' = JStr ''settled'')"
    "transactionCondition conv threshold (JObj kvs)
     = Inr (own_property kvs ''status'' = JStr ''confirmed''
          \<or> own_property kvs ''status'' = JStr ''complete''
          \<or> num_ge (Number_js conv (js_or (own_property kvs ''confirmations'') (JNum 0))) threshold)"
    "lightningInvoiceCondition (JObj kvs)
     = Inr (own_property kvs ''status'' = JStr ''paid''
          \<or> own_property kvs ''status'' = JStr ''settled''
          \<or> own_property kvs ''status'' = JStr ''completed'')"
    "kycCondition (JObj kvs)
     = Inr (js_or (own_property kvs ''status'') (own_property kvs ''verificationStatus'') = JStr ''approved''
          \<or> js_or (own_property kvs ''status'') (own_property kvs ''verificationStatus'') = JStr ''verified''
          \<or> js_or (own_property kvs ''status'') (own_property kvs ''verificationStatus'') = JStr ''complete'')"
    by (simp_all add: bankAccountCondition_def achDebitCondition_def orderFillCondition_def
        transactionCondition_def lightningInvoiceCondition_def kycCondition_def js_or_def Let_def)
  have num: "num_ge (Number_js conv (js_or (JNum confirmations) (JNum 0))) threshold
     = (threshold \<le> confirmations)"
    by (simp add: num_ge_def Number_js_def js_or_def truthy_def)
  from bank tx others conds num show ?thesis
    by (intro conjI)
qed

theorem wrappers_fix_predicate_and_timing_witness:
  "fst (waitForTransactionConfirmation (\<lambda>v. ''{}'') (\<lambda>v. None)
        (\<lambda>k. (0, Inr (JObj [(''confirmations'', JNum (int k - 1))]))) None None)
     = Inr (JObj [(''confirmations'', JNum 1)])
   \<and> sleeps (snd (waitForTransactionConfirmation (\<lambda>v. ''{}'') (\<lambda>v. None)
        (\<lambda>k. (0, Inr (JObj [(''confirmations'', JNum (int k - 1))]))) None None))
     = [15000]"
proof -
  let ?fn = "\<lambda>k::nat. (0::nat, Inr (JObj [(''confirmations'', JNum (int k - 1))]) :: string + jsval)"
  note inst = wrappers_fix_predicate_and_timing [where fn = ?fn and conv = "\<lambda>v. None"
      and stringify = "\<lambda>v. ''{}''"]
  have eq: "waitForTransactionConfirmation (\<lambda>v. ''{}'') (\<lambda>v. None) ?fn None None
     = pollUntil (\<lambda>v. ''{}'') ?fn (transactionCondition (\<lambda>v. None) 1)
         \<lparr>maxWait = Some 600000, pollInterval = Some 15000,
          timeoutMessage = Some ''Transaction not confirmed after 600000ms''\<rparr>"
    by (rule inst [THEN conjunct2, THEN conjunct2, THEN conjunct2, THEN conjunct1])
  show ?thesis
    unfolding eq
    by (simp add: pollUntil_def pollLoop.simps pollAttempt_def Let_def num_or_def
        start_state_def sleep_st_def setTimeout_ms_def transactionCondition_def
        own_property_def js_or_def truthy_def Number_js_def num_ge_def)
qed

text \<open>
  Claim C8, as amended. Five wrappers (ACH debit, order fill, transaction confirmation,
  Lightning invoice, KYC approval) resolve with the first observed result that satisfies
  their condition, provided the attempt observing it starts before the deadline; that
  attempt is their last. \<^verbatim>\<open>waitForBankAccountVerification\<close> stops polling at the same
  moment (the attempt that observes such a result is its last, and that result is the
  last one it has seen) but resolves with no value (\<^verbatim>\<open>undefined\<close>): it is declared
  \<^verbatim>\<open>Promise<void>\<close> and does not return the result of the poll.
\<close>

theorem wrappers_resolve_with_first_satisfying_result:
  "(firstSatisfiedAt fn achDebitCondition 10000 (wrapperDeadline 300000 maxWaitArg) n r \<longrightarrow>
      fst (waitForAchDebitCompletion stringify fn maxWaitArg) = Inr r
      \<and> attempts (snd (waitForAchDebitCompletion stringify fn maxWaitArg)) = Suc n)
   \<and> (firstSatisfiedAt fn orderFillCondition 2000 (wrapperDeadline 60000 maxWaitArg) n r \<longrightarrow>
      fst (waitForOrderFill stringify fn maxWaitArg) = Inr r
      \<and> attempts (snd (waitForOrderFill stringify fn maxWaitArg)) = Suc n)
   \<and> (firstSatisfiedAt fn
        (transactionCondition conv (case minConfirmationsArg of None \<Rightarrow> 1 | Some m \<Rightarrow> m))
        15000 (wrapperDeadline 600000 maxWaitArg) n r \<longrightarrow>
      fst (waitForTransactionConfirmation stringify conv fn minConfirmationsArg maxWaitArg) = Inr r
      \<and> attempts (snd (waitForTransactionConfirmation stringify conv fn minConfirmationsArg
           maxWaitArg)) = Suc n)
   \<and> (firstSatisfiedAt fn lightningInvoiceCondition 3000 (wrapperDeadline 120000 maxWaitArg) n r \<longrightarrow>
      fst (waitForLightningInvoicePaid stringify fn maxWaitArg) = Inr r
      \<and> attempts (snd (waitForLightningInvoicePaid stringify fn maxWaitArg)) = Suc n)
   \<and> (firstSatisfiedAt fn kycCondition 10000 (wrapperDeadline 300000 maxWaitArg) n r \<longrightarrow>
      fst (waitForKycApproval stringify fn maxWaitArg) = Inr r
      \<and> attempts (snd (waitForKycApproval stringify fn maxWaitArg)) = Suc n)
   \<and> (firstSatisfiedAt (getBankAccount bankAccountId) bankAccountCondition 5000
        (wrapperDeadline 120000 maxWaitArg) n r \<longrightarrow>
      fst (waitForBankAccountVerification stringify getBankAccount bankAccountId maxWaitArg)
        = Inr JUndefined
      \<and> attempts (snd (waitForBankAccountVerification stringify getBankAccount bankAccountId
           maxWaitArg)) = Suc n
      \<and> lastResult (snd (waitForBankAccountVerification stringify getBankAccount bankAccountId
           maxWaitArg)) = Some r
      \<and> sleeps (snd (waitForBankAccountVerification stringify getBankAccount bankAccountId
           maxWaitArg)) = replicate n 5000)"
proof (intro conjI impI)
  assume "firstSatisfiedAt fn achDebitCondition 10000 (wrapperDeadline 300000 maxWaitArg) n r"
  then show "fst (waitForAchDebitCompletion stringify fn maxWaitArg) = Inr r"
    and "attempts (snd (waitForAchDebitCompletion stringify fn maxWaitArg)) = Suc n"
    unfolding waitForAchDebitCompletion_def Let_def
    by (intro pollUntil_firstSatisfied [THEN conjunct1]
          pollUntil_firstSatisfied [THEN conjunct2, THEN conjunct1],
        simp add: num_or_Some_nonzero wrapper_maxWait)+
next
  assume "firstSatisfiedAt fn orderFillCondition 2000 (wrapperDeadline 60000 maxWaitArg) n r"
  then show "fst (waitForOrderFill stringify fn maxWaitArg) = Inr r"
    and "attempts (snd (waitForOrderFill stringify fn maxWaitArg)) = Suc n"
    unfolding waitForOrderFill_def Let_def
    by (intro pollUntil_firstSatisfied [THEN conjunct1]
          pollUntil_firstSatisfied [THEN conjunct2, THEN conjunct1],
        simp add: num_or_Some_nonzero wrapper_maxWait)+
next
  assume "firstSatisfiedAt fn
      (transactionCondition conv (case minConfirmationsArg of None \<Rightarrow> 1 | Some m \<Rightarrow> m))
      15000 (wrapperDeadline 600000 maxWaitArg) n r"
  then show "fst (waitForTransactionConfirmation stringify conv fn minConfirmationsArg maxWaitArg)
      = Inr r"
    and "attempts (snd (waitForTransactionConfirmation stringify conv fn minConfirmationsArg
      maxWaitArg)) = Suc n"
    unfolding waitForTransactionConfirmation_def Let_def
    by (intro pollUntil_firstSatisfied [THEN conjunct1]
          pollUntil_firstSatisfied [THEN conjunct2, THEN conjunct1],
        simp add: num_or_Some_nonzero wrapper_maxWait)+
next
  assume "firstSatisfiedAt fn lightningInvoiceCondition 3000 (wrapperDeadline 120000 maxWaitArg) n r"
  then show "fst (waitForLightningInvoicePaid stringify fn maxWaitArg) = Inr r"
    and "attempts (snd (waitForLightningInvoicePaid stringify fn maxWaitArg)) = Suc n"
    unfolding waitForLightningInvoicePaid_def Let_def
    by (intro pollUntil_firstSatisfied [THEN conjunct1]
          pollUntil_firstSatisfied [THEN conjunct2, THEN conjunct1],
        simp add: num_or_Some_nonzero wrapper_maxWait)+
next
  assume "firstSatisfiedAt fn kycCondition 10000 (wrapperDeadline 300000 maxWaitArg) n r"
  then show "fst (waitForKycApproval stringify fn maxWaitArg) = Inr r"
    and "attempts (snd (waitForKycApproval stringify fn maxWaitArg)) = Suc n"
    unfolding waitForKycApproval_def Let_def
    by (intro pollUntil_firstSatisfied [THEN conjunct1]
          pollUntil_firstSatisfied [THEN conjunct2, THEN conjunct1],
        simp add: num_or_Some_nonzero wrapper_maxWait)+
next
  let ?opts = "\<lparr>maxWait = Some (case maxWaitArg of None \<Rightarrow> 120000 | Some m \<Rightarrow> m),
      pollInterval = Some 5000,
      timeoutMessage = Some (''Bank account '' @ bankAccountId @ '' not verified after '' @
        show_int (case maxWaitArg of None \<Rightarrow> 120000 | Some m \<Rightarrow> m) @ ''ms'')\<rparr>"
  assume "firstSatisfiedAt (getBankAccount bankAccountId) bankAccountCondition 5000
      (wrapperDeadline 120000 maxWaitArg) n r"
  then have "firstSatisfiedAt (getBankAccount bankAccountId) bankAccountCondition
      (num_or (pollInterval ?opts) 1000) (num_or (maxWait ?opts) 30000) n r"
    by (simp add: num_or_Some_nonzero wrapper_maxWait)
  from pollUntil_firstSatisfied [OF this, of stringify]
  have run: "fst (pollUntil stringify (getBankAccount bankAccountId) bankAccountCondition ?opts) = Inr r"
    "attempts (snd (pollUntil stringify (getBankAccount bankAccountId) bankAccountCondition ?opts)) = Suc n"
    "sleeps (snd (pollUntil stringify (getBankAccount bankAccountId) bankAccountCondition ?opts))
       = replicate n 5000"
    "lastResult (snd (pollUntil stringify (getBankAccount bankAccountId) bankAccountCondition ?opts))
       = Some r"
    by (simp_all add: num_or_Some_nonzero)
  then show "fst (waitForBankAccountVerification stringify getBankAccount bankAccountId maxWaitArg)
      = Inr JUndefined"
    and "attempts (snd (waitForBankAccountVerification stringify getBankAccount bankAccountId
      maxWaitArg)) = Suc n"
    and "lastResult (snd (waitForBankAccountVerification stringify getBankAccount bankAccountId
      maxWaitArg)) = Some r"
    and "sleeps (snd (waitForBankAccountVerification stringify getBankAccount bankAccountId
      maxWaitArg)) = replicate n 5000"
    by (simp_all add: waitForBankAccountVerification_def Let_def)
qed

theorem wrappers_resolve_with_first_satisfying_result_witness:
  "fst (waitForOrderFill (\<lambda>v. ''{}'')
        (\<lambda>k. (0, Inr (if k \<le> 2 then JObj [(''status'', JStr ''open'')]
                      else JObj [(''status'', JStr ''filled''), (''filledQuantity'', JStr ''0.001'')])))
        (Some 10000))
     = Inr (JObj [(''status'', JStr ''filled''), (''filledQuantity'', JStr ''0.001'')])
   \<and> attempts (snd (waitForOrderFill (\<lambda>v. ''{}'')
        (\<lambda>k. (0, Inr (if k \<le> 2 then JObj [(''status'', JStr ''open'')]
                      else JObj [(''status'', JStr ''filled''), (''filledQuantity'', JStr ''0.001'')])))
        (Some 10000))) = 3
   \<and> fst (waitForBankAccountVerification (\<lambda>v. ''{}'')
        (\<lambda>ident k. (0, Inr (JObj [(''verificationState'',
            JStr (if k \<le> 1 then ''pending'' else ''approved''))])))
        ''ba_7'' None) = Inr JUndefined
   \<and> attempts (snd (waitForBankAccountVerification (\<lambda>v. ''{}'')
        (\<lambda>ident k. (0, Inr (JObj [(''verificationState'',
            JStr (if k \<le> 1 then ''pending'' else ''approved''))])))
        ''ba_7'' None)) = 2"
proof -
  let ?fn = "\<lambda>k::nat. (0::nat, Inr (if k \<le> 2 then JObj [(''status'', JStr ''open'')]
      else JObj [(''status'', JStr ''filled''), (''filledQuantity'', JStr ''0.001'')]) :: string + jsval)"
  let ?r = "JObj [(''status'', JStr ''filled''), (''filledQuantity'', JStr ''0.001'')]"
  have "\<forall>i. 1 \<le> i \<and> i \<le> (2::nat) \<longrightarrow> unsuccessful ?fn orderFillCondition i"
    by (simp add: unsuccessful_def orderFillCondition_def own_property_def)
  moreover have "orderFillCondition ?r = Inr True"
    by (simp add: orderFillCondition_def own_property_def)
  moreover have "int (elapsedAfter ?fn (setTimeout_ms 2000) 0 2) < wrapperDeadline 60000 (Some 10000)"
    by (simp add: setTimeout_ms_def wrapperDeadline_def num_or_def numeral_2_eq_2)
  ultimately have a: "firstSatisfiedAt ?fn orderFillCondition 2000 (wrapperDeadline 60000 (Some 10000)) 2 ?r"
    by (simp add: firstSatisfiedAt_def)
  let ?get = "\<lambda>(ident::string) k::nat. (0::nat, Inr (JObj [(''verificationState'',
      JStr (if k \<le> 1 then ''pending'' else ''approved''))]) :: string + jsval)"
  let ?acc = "JObj [(''verificationState'', JStr ''approved'')]"
  have "\<forall>i. 1 \<le> i \<and> i \<le> (1::nat) \<longrightarrow> unsuccessful (?get ''ba_7'') bankAccountCondition i"
    by (simp add: unsuccessful_def bankAccountCondition_def own_property_def truthy_def)
  moreover have "bankAccountCondition ?acc = Inr True"
    by (simp add: bankAccountCondition_def own_property_def truthy_def)
  moreover have "int (elapsedAfter (?get ''ba_7'') (setTimeout_ms 5000) 0 1) < wrapperDeadline 120000 None"
    by (simp add: setTimeout_ms_def wrapperDeadline_def num_or_def)
  ultimately have b: "firstSatisfiedAt (?get ''ba_7'') bankAccountCondition 5000
      (wrapperDeadline 120000 None) 1 ?acc"
    by (simp add: firstSatisfiedAt_def)
  from wrappers_resolve_with_first_satisfying_result [where fn = ?fn and n = 2 and r = ?r
      and maxWaitArg = "Some 10000" and stringify = "\<lambda>v. ''{}''",
      THEN conjunct2, THEN conjunct1, THEN mp, OF a]
  have one: "fst (waitForOrderFill (\<lambda>v. ''{}'') ?fn (Some 10000)) = Inr ?r
      \<and> attempts (snd (waitForOrderFill (\<lambda>v. ''{}'') ?fn (Some 10000))) = 3"
    by simp
  from wrappers_resolve_with_first_satisfying_result [where getBankAccount = ?get
      and bankAccountId = "''ba_7''" and n = 1 and r = ?acc and maxWaitArg = None
      and stringify = "\<lambda>v. ''{}''",
      THEN conjunct2, THEN conjunct2, THEN conjunct2, THEN conjunct2, THEN conjunct2, THEN mp, OF b]
  have two: "fst (waitForBankAccountVerification (\<lambda>v. ''{}'') ?get ''ba_7'' None) = Inr JUndefined
      \<and> attempts (snd (waitForBankAccountVerification (\<lambda>v. ''{}'') ?get ''ba_7'' None)) = 2"
    by simp
  from one two show ?thesis
    by simp
qed

theorem wrappers_resolve_with_first_satisfying_result_counterexample:
  "fst (waitForBankAccountVerification (\<lambda>v. ''{}'')
        (\<lambda>ident k. (0, Inr (JObj [(''id'', JStr ident), (''status'', JStr ''verified'')])))
        ''ba_1'' None)
     = Inr JUndefined
   \<and> lastResult (snd (waitForBankAccountVerification (\<lambda>v. ''{}'')
        (\<lambda>ident k. (0, Inr (JObj [(''id'', JStr ident), (''status'', JStr ''verified'')])))
        ''ba_1'' None))
     = Some (JObj [(''id'', JStr ''ba_1''), (''status'', JStr ''verified'')])
   \<and> bankAccountCondition (JObj [(''id'', JStr ''ba_1''), (''status'', JStr ''verified'')]) = Inr True"
  by (simp add: waitForBankAccountVerification_def pollUntil_def pollLoop.simps pollAttempt_def
      Let_def num_or_def start_state_def bankAccountCondition_def own_property_def truthy_def)

text \<open>
  Claim C10. In \<^verbatim>\<open>waitForTransactionConfirmation\<close> a \<^verbatim>\<open>confirmations\<close> field that is
  missing (or holds any other falsy value) counts as the number 0. So with a threshold
  \<open>minConfirmations \<le> 0\<close> the condition is true on such a result whatever its status,
  and the wrapper returns the first result the polled function delivers, provided the
  attempt that delivers it starts before the deadline.
\<close>

theorem transaction_nonpositive_threshold_accepts_first_result:
  assumes "minConfirmations \<le> 0"
    and "\<forall>i. 1 \<le> i \<and> i \<le> n \<longrightarrow> isl (snd (fn i))"
    and "snd (fn (Suc n)) = Inr r"
    and "js_get r ''confirmations'' = Inr c" and "\<not> truthy c"
    and "int (elapsedAfter fn 15000 0 n) < wrapperDeadline 600000 maxWaitArg"
  shows "transactionCondition conv minConfirmations r = Inr True
     \<and> fst (waitForTransactionConfirmation stringify conv fn (Some minConfirmations) maxWaitArg)
         = Inr r
     \<and> attempts (snd (waitForTransactionConfirmation stringify conv fn (Some minConfirmations)
         maxWaitArg)) = Suc n"
proof -
  let ?cond = "transactionCondition conv minConfirmations"
  let ?opts = "\<lparr>maxWait = Some (case maxWaitArg of None \<Rightarrow> 600000 | Some m \<Rightarrow> m),
      pollInterval = Some 15000,
      timeoutMessage = Some (''Transaction not confirmed after '' @
        show_int (case maxWaitArg of None \<Rightarrow> 600000 | Some m \<Rightarrow> m) @ ''ms'')\<rparr>"
  obtain s where "js_get r ''status'' = Inr s"
    using js_get_defined [OF assms(4)] by blast
  then have accept: "?cond r = Inr True"
    using assms(1,4,5)
    by (simp add: transactionCondition_def Let_def js_or_def Number_js_def num_ge_def)
  have "\<forall>i. 1 \<le> i \<and> i \<le> n \<longrightarrow> unsuccessful fn ?cond i"
    using assms(2) by (auto simp: unsuccessful_def isl_def)
  moreover have "setTimeout_ms 15000 = 15000"
    by (simp add: setTimeout_ms_def)
  ultimately have "firstSatisfiedAt fn ?cond (num_or (pollInterval ?opts) 1000)
      (num_or (maxWait ?opts) 30000) n r"
    using assms(3,6) accept
    by (simp add: firstSatisfiedAt_def num_or_Some_nonzero wrapper_maxWait)
  from pollUntil_firstSatisfied [OF this, of stringify] accept show ?thesis
    by (simp add: waitForTransactionConfirmation_def Let_def)
qed

theorem transaction_nonpositive_threshold_accepts_first_result_witness:
  "int (elapsedAfter (\<lambda>k. (40, if k \<le> 1 then Inl ''404'' else Inr (JObj [(''status'', JStr ''pending'')])))
        15000 0 1) < wrapperDeadline 600000 None
   \<and> fst (waitForTransactionConfirmation (\<lambda>v. ''{}'') (\<lambda>v. None)
        (\<lambda>k. (40, if k \<le> 1 then Inl ''404'' else Inr (JObj [(''status'', JStr ''pending'')])))
        (Some 0) None)
     = Inr (JObj [(''status'', JStr ''pending'')])"
proof -
  let ?fn = "\<lambda>k::nat. (40::nat, if k \<le> 1 then Inl ''404''
      else (Inr (JObj [(''status'', JStr ''pending'')]) :: string + jsval))"
  let ?r = "JObj [(''status'', JStr ''pending'')]"
  have h1: "(0::int) \<le> 0" by simp
  have h2: "\<forall>i. 1 \<le> i \<and> i \<le> (1::nat) \<longrightarrow> isl (snd (?fn i))"
    by simp
  have h3: "snd (?fn (Suc 1)) = Inr ?r"
    by simp
  have h4: "js_get ?r ''confirmations'' = Inr JUndefined"
    by (simp add: own_property_def)
  have h5: "\<not> truthy JUndefined"
    by (simp add: truthy_def)
  have h6: "int (elapsedAfter ?fn 15000 0 1) < wrapperDeadline 600000 None"
    by (simp add: wrapperDeadline_def num_or_def)
  from transaction_nonpositive_threshold_accepts_first_result [where minConfirmations = 0
      and n = 1 and fn = ?fn and r = ?r and c = JUndefined and maxWaitArg = None
      and conv = "\<lambda>v. None" and stringify = "\<lambda>v. ''{}''", OF h1 h2 h3 h4 h5 h6] h6
  show ?thesis
    by simp
qed

end
